theory Spec2Isabelle
  imports Complex_Main "HOL-Library.Sublist"
begin

section \<open>Values of the program\<close>

text \<open>
  A JavaScript \<open>number\<close> is a double. The numbers of the program come from \<open>parseInt\<close> and
  from counting up by one, so a finite one is an integer; it is held as a mathematical
  integer, and the operations below round the way doubles do. \<open>NaN\<close> and the two infinities
  stand beside the finite numbers. Every comparison with \<open>NaN\<close> is false.
\<close>

datatype number = NaN | Num int | Infinity | NegInfinity

fun lt :: "number \<Rightarrow> number \<Rightarrow> bool" where
  "lt (Num a) (Num b) = (a < b)"
| "lt (Num a) Infinity = True"
| "lt NegInfinity (Num b) = True"
| "lt NegInfinity Infinity = True"
| "lt _ _ = False"

fun gt :: "number \<Rightarrow> number \<Rightarrow> bool" where
  "gt (Num a) (Num b) = (a > b)"
| "gt Infinity (Num b) = True"
| "gt (Num a) NegInfinity = True"
| "gt Infinity NegInfinity = True"
| "gt _ _ = False"

fun le :: "number \<Rightarrow> number \<Rightarrow> bool" where
  "le (Num a) (Num b) = (a \<le> b)"
| "le (Num a) Infinity = True"
| "le NegInfinity (Num b) = True"
| "le NegInfinity Infinity = True"
| "le Infinity Infinity = True"
| "le NegInfinity NegInfinity = True"
| "le _ _ = False"

fun isNaN :: "number \<Rightarrow> bool" where
  "isNaN NaN = True"
| "isNaN _ = False"

text \<open>
  The Number value of a mathematical integer. A double has 53 significant bits: an
  integer with more bits is rounded to the nearest integer with 53 significant bits, a tie
  going to the even one, and a magnitude that rounds to \<open>2^1024\<close> or more (a result of more
  than 1024 bits) is infinite.
\<close>

function bitLength :: "int \<Rightarrow> nat" where
  "bitLength n = (if n \<le> 0 then 0 else Suc (bitLength (n div 2)))"
  by pat_completeness auto
termination
  by (relation "measure nat") auto

declare bitLength.simps [simp del]

definition roundToDouble :: "int \<Rightarrow> int" where
  "roundToDouble n =
     (let k = bitLength n
      in if k \<le> 53 then n
         else
           (let e = k - 53;
                q = n div 2 ^ e;
                r = n mod 2 ^ e;
                half = 2 ^ (e - 1)
            in (if r > half \<or> (r = half \<and> odd q) then q + 1 else q) * 2 ^ e))"

definition toNumber :: "int \<Rightarrow> number" where
  "toNumber i =
     (let m = roundToDouble \<bar>i\<bar>
      in if 1024 < bitLength m then (if i < 0 then NegInfinity else Infinity)
         else Num (if i < 0 then - m else m))"

text \<open>\<open>i++\<close> on a number: the double sum \<open>i + 1\<close>.\<close>

fun increment :: "number \<Rightarrow> number" where
  "increment (Num i) = toNumber (i + 1)"
| "increment n = n"

text \<open>Decimal digits of a natural number, most significant first.\<close>

definition digitChar :: "nat \<Rightarrow> char" where
  "digitChar d = char_of (48 + d)"

fun showNat :: "nat \<Rightarrow> string" where
  "showNat n = (if n < 10 then [digitChar n] else showNat (n div 10) @ [digitChar (n mod 10)])"

declare showNat.simps [simp del]

text \<open>
  \<open>String(n)\<close> and the interpolation of a number in a template literal: the decimal digits
  of an integer (what JavaScript prints for magnitudes below \<open>10^21\<close>).
\<close>

fun numberToString :: "number \<Rightarrow> string" where
  "numberToString NaN = ''NaN''"
| "numberToString (Num i) = (if i < 0 then ''-'' @ showNat (nat (- i)) else showNat (nat i))"
| "numberToString Infinity = ''Infinity''"
| "numberToString NegInfinity = ''-Infinity''"

text \<open>
  A value of type \<open>any\<close>: what \<open>JSON.parse\<close> returns and what \<open>JSON.stringify\<close> takes.
\<close>

datatype json =
    JNull
  | JBool bool
  | JNum number
  | JStr string
  | JArr "json list"
  | JObj "(string \<times> json) list"

text \<open>What a \<open>throw\<close> carries: an \<open>Error\<close> with its message, or a built-in error.\<close>

datatype error = Error string | TypeError | SyntaxError | RangeError

section \<open>String operations of the language\<close>

text \<open>The white space that \<open>trim\<close> and \<open>parseInt\<close> skip, among 8-bit characters.\<close>

definition isWhiteSpace :: "char \<Rightarrow> bool" where
  "isWhiteSpace c = (c \<in> set [CHR 0x09, CHR 0x0A, CHR 0x0B, CHR 0x0C, CHR 0x0D, CHR 0x20, CHR 0xA0])"

definition trimStart :: "string \<Rightarrow> string" where
  "trimStart s = dropWhile isWhiteSpace s"

definition trimEnd :: "string \<Rightarrow> string" where
  "trimEnd s = rev (dropWhile isWhiteSpace (rev s))"

definition trim :: "string \<Rightarrow> string" where
  "trim s = trimEnd (trimStart s)"

text \<open>
  \<open>s.split(c)\<close> for a one-character separator: the result is never empty, and the empty
  string gives one empty piece.
\<close>

fun split :: "char \<Rightarrow> string \<Rightarrow> string list" where
  "split sep [] = [[]]"
| "split sep (c # cs) =
     (if c = sep then [] # split sep cs
      else (case split sep cs of p # ps \<Rightarrow> (c # p) # ps | [] \<Rightarrow> [[c]]))"

text \<open>\<open>xs.join(sep)\<close> on an array of strings.\<close>

fun join :: "string \<Rightarrow> string list \<Rightarrow> string" where
  "join sep [] = []"
| "join sep [x] = x"
| "join sep (x # y # ys) = x @ sep @ join sep (y # ys)"

definition startsWith :: "string \<Rightarrow> string \<Rightarrow> bool" where
  "startsWith s p = (take (length p) s = p)"

definition endsWith :: "string \<Rightarrow> string \<Rightarrow> bool" where
  "endsWith s p = (length p \<le> length s \<and> drop (length s - length p) s = p)"

text \<open>\<open>s.includes(t)\<close>: \<open>t\<close> occurs in \<open>s\<close> as a contiguous substring.\<close>

fun includes_str :: "string \<Rightarrow> string \<Rightarrow> bool" where
  "includes_str [] t = (t = [])"
| "includes_str (c # cs) t = (startsWith (c # cs) t \<or> includes_str cs t)"

text \<open>
  A character is a code unit below 256. Among these \<open>toLowerCase\<close> changes the letters
  \<open>A\<close> to \<open>Z\<close> and the capital letters from \<open>U+00C0\<close> to \<open>U+00DE\<close>, each to the code unit 32
  higher; the multiplication sign \<open>U+00D7\<close> between them is not a letter and is kept,
  like every other character.
\<close>

definition lowerChar :: "char \<Rightarrow> char" where
  "lowerChar c =
     (let n = (of_char c :: nat)
      in if (65 \<le> n \<and> n \<le> 90) \<or> (192 \<le> n \<and> n \<le> 222 \<and> n \<noteq> 215)
         then char_of (n + 32) else c)"

definition toLowerCase :: "string \<Rightarrow> string" where
  "toLowerCase s = map lowerChar s"

section \<open>Types of the application\<close>

text \<open>
  The interfaces \<open>Client\<close>, \<open>Worker\<close> and \<open>Task\<close>. The list-valued and \<open>any\<close>-valued fields
  are type parameters, because \<open>exportData\<close> spreads a record and replaces these fields by
  strings. In the application state \<open>RequestedTaskIDs\<close>, \<open>Skills\<close> and \<open>RequiredSkills\<close> are
  arrays of strings; \<open>AvailableSlots\<close>, \<open>PreferredPhases\<close> and \<open>AttributesJSON\<close> hold
  whatever \<open>JSON.parse\<close> or the parsers returned, so they are \<open>json\<close> values.
\<close>

record ('l, 'j) client =
  ClientID :: string
  ClientName :: string
  PriorityLevel :: number
  RequestedTaskIDs :: 'l
  GroupTag :: string
  AttributesJSON :: 'j

record ('l, 'j) worker =
  WorkerID :: string
  WorkerName :: string
  Skills :: 'l
  AvailableSlots :: 'j
  MaxLoadPerPhase :: number
  WorkerGroup :: string
  QualificationLevel :: number

record ('l, 'j) task =
  TaskID :: string
  TaskName :: string
  Category :: string
  Duration :: number
  RequiredSkills :: 'l
  PreferredPhases :: 'j
  MaxConcurrent :: number

type_synonym Client = "(string list, json) client"
type_synonym Worker = "(string list, json) worker"
type_synonym Task = "(string list, json) task"

datatype severity = error | warning

record ValidationError =
  id' :: string
  type' :: severity
  entityId :: string
  field :: "string option"
  message :: string
  suggestion :: "string option"

section \<open>Validation\<close>

text \<open>
  \<open>validateData\<close> pushes on one array \<open>errors\<close> in four \<open>forEach\<close> loops. Each loop body is
  a step function on the state it mutates: the array, and for the duplicate checks the
  \<open>Set\<close> of identifiers seen so far. \<open>fold\<close> runs a body over the list in order.
\<close>

definition clientStep :: "Client \<Rightarrow> ValidationError list \<times> string set \<Rightarrow> ValidationError list \<times> string set" where
  "clientStep client st =
     (let (errors, clientIds) = st;
          errors = (if ClientID client \<in> clientIds
                    then errors @ [\<lparr>id' = ''dup-client-'' @ ClientID client,
                                    type' = error,
                                    entityId = ClientID client,
                                    field = Some ''ClientID'',
                                    message = ''Duplicate Client ID: '' @ ClientID client,
                                    suggestion = Some ''Use unique IDs for each client''\<rparr>]
                    else errors);
          clientIds = insert (ClientID client) clientIds;
          errors = (if lt (PriorityLevel client) (Num 1) \<or> gt (PriorityLevel client) (Num 5)
                    then errors @ [\<lparr>id' = ''priority-'' @ ClientID client,
                                    type' = error,
                                    entityId = ClientID client,
                                    field = Some ''PriorityLevel'',
                                    message = ''Priority must be 1-5, got '' @ numberToString (PriorityLevel client),
                                    suggestion = Some ''Set priority between 1 and 5''\<rparr>]
                    else errors)
      in (errors, clientIds))"

text \<open>
  The inner loop over one client's requested task identifiers. A \<open>Client\<close> has an array
  there, so of the three shapes the source tests, \<open>Array.isArray\<close> is the one that holds.
\<close>

definition taskRefStep :: "string set \<Rightarrow> Client \<Rightarrow> string \<Rightarrow> ValidationError list \<Rightarrow> ValidationError list" where
  "taskRefStep taskIds client taskId errors =
     (if taskId \<notin> taskIds
      then errors @ [\<lparr>id' = ''unknown-task-'' @ ClientID client @ ''-'' @ taskId,
                      type' = error,
                      entityId = ClientID client,
                      field = Some ''RequestedTaskIDs'',
                      message = ''Unknown task ID: '' @ taskId,
                      suggestion = Some ''Remove invalid task ID or add corresponding task''\<rparr>]
      else errors)"

definition clientRefStep :: "string set \<Rightarrow> Client \<Rightarrow> ValidationError list \<Rightarrow> ValidationError list" where
  "clientRefStep taskIds client errors =
     (let requestedTaskIds = RequestedTaskIDs client
      in fold (taskRefStep taskIds client) requestedTaskIds errors)"

definition workerStep :: "Worker \<Rightarrow> ValidationError list \<times> string set \<Rightarrow> ValidationError list \<times> string set" where
  "workerStep worker st =
     (let (errors, workerIds) = st;
          errors = (if WorkerID worker \<in> workerIds
                    then errors @ [\<lparr>id' = ''dup-worker-'' @ WorkerID worker,
                                    type' = error,
                                    entityId = WorkerID worker,
                                    field = Some ''WorkerID'',
                                    message = ''Duplicate Worker ID: '' @ WorkerID worker,
                                    suggestion = Some ''Use unique IDs for each worker''\<rparr>]
                    else errors);
          workerIds = insert (WorkerID worker) workerIds;
          errors = (if lt (QualificationLevel worker) (Num 1) \<or> gt (QualificationLevel worker) (Num 5)
                    then errors @ [\<lparr>id' = ''qual-'' @ WorkerID worker,
                                    type' = error,
                                    entityId = WorkerID worker,
                                    field = Some ''QualificationLevel'',
                                    message = ''Qualification must be 1-5, got '' @ numberToString (QualificationLevel worker),
                                    suggestion = Some ''Set qualification between 1 and 5''\<rparr>]
                    else errors)
      in (errors, workerIds))"

definition taskStep :: "Task \<Rightarrow> ValidationError list \<Rightarrow> ValidationError list" where
  "taskStep task errors =
     (if lt (Duration task) (Num 1)
      then errors @ [\<lparr>id' = ''duration-'' @ TaskID task,
                      type' = error,
                      entityId = TaskID task,
                      field = Some ''Duration'',
                      message = ''Duration must be at least 1, got '' @ numberToString (Duration task),
                      suggestion = Some ''Set duration to positive number''\<rparr>]
      else errors)"

definition validateData :: "Client list \<Rightarrow> Worker list \<Rightarrow> Task list \<Rightarrow> ValidationError list" where
  "validateData clients workers tasks =
     (let errors = [];
          (errors, clientIds) = fold clientStep clients (errors, {});
          taskIds = set (map TaskID tasks);
          errors = fold (clientRefStep taskIds) clients errors;
          (errors, workerIds) = fold workerStep workers (errors, {});
          errors = fold taskStep tasks errors
      in errors)"

section \<open>Parsing and normalization\<close>

text \<open>
  \<open>parseInt(s)\<close> without a radix: leading white space is skipped, then an optional sign,
  then an optional \<open>0x\<close> or \<open>0X\<close> that selects radix 16; the longest run of digits of the
  radix gives the mathematical integer whose Number value is returned, and the result is
  \<open>NaN\<close> when the run is empty.
\<close>

definition digitValue :: "char \<Rightarrow> nat option" where
  "digitValue c =
     (let n = (of_char c :: nat)
      in if 48 \<le> n \<and> n \<le> 57 then Some (n - 48)
         else if 97 \<le> n \<and> n \<le> 122 then Some (n - 87)
         else if 65 \<le> n \<and> n \<le> 90 then Some (n - 55)
         else None)"

definition isDigitOf :: "nat \<Rightarrow> char \<Rightarrow> bool" where
  "isDigitOf radix c = (case digitValue c of None \<Rightarrow> False | Some d \<Rightarrow> d < radix)"

definition digitsValue :: "nat \<Rightarrow> string \<Rightarrow> int" where
  "digitsValue radix ds = foldl (\<lambda>acc c. acc * int radix + int (the (digitValue c))) 0 ds"

definition parseInt :: "string \<Rightarrow> number" where
  "parseInt s =
     (let s1 = trimStart s;
          (negative, s2) = (case s1 of
                              c # r \<Rightarrow> if c = CHR ''-'' then (True, r)
                                       else if c = CHR ''+'' then (False, r)
                                       else (False, s1)
                            | [] \<Rightarrow> (False, s1));
          (radix, s3) = (if startsWith s2 ''0x'' \<or> startsWith s2 ''0X''
                         then (16, drop 2 s2) else (10, s2));
          ds = takeWhile (isDigitOf radix) s3
      in if ds = [] then NaN
         else toNumber ((if negative then - 1 else 1) * digitsValue radix ds))"

text \<open>
  \<open>JSON.parse\<close> belongs to the language, not to the program: it is the parameter
  \<open>JSON_parse\<close>, which gives \<open>None\<close> where \<open>JSON.parse\<close> throws. Likewise \<open>JSON.stringify\<close>
  is the parameter \<open>JSON_stringify\<close>.
\<close>

definition parseSlots :: "(string \<Rightarrow> json option) \<Rightarrow> string \<Rightarrow> json" where
  "parseSlots JSON_parse slotsString =
     (if startsWith slotsString ''['' \<and> endsWith slotsString '']''
      then (case JSON_parse slotsString of Some v \<Rightarrow> v | None \<Rightarrow> JArr [])
      else JArr (map JNum (filter (\<lambda>n. \<not> isNaN n)
                    (map (\<lambda>s. parseInt (trim s)) (split CHR '','' slotsString)))))"

text \<open>
  The \<open>for\<close> loop of \<open>parsePhases\<close>, pushing \<open>i\<close> on \<open>result\<close> while \<open>i <= end\<close>. The
  counter is a double: from \<open>2^53\<close> on, \<open>i++\<close> may leave it unchanged, and an infinite one
  never changes. An array holds at most \<open>2^32 - 1\<close> elements: \<open>push\<close> on a full array throws
  a \<open>RangeError\<close> (an engine short of memory gives up before). So a loop that cannot
  reach its end returns no list.
\<close>

function phaseLoop :: "number \<Rightarrow> number \<Rightarrow> number list \<Rightarrow> error + number list" where
  "phaseLoop i end' result =
     (if le i end'
      then (if int (length result) < 4294967295
            then phaseLoop (increment i) end' (result @ [i])
            else Inl RangeError)
      else Inr result)"
  by pat_completeness auto
termination
  by (relation "measure (\<lambda>(i, end', result). nat (4294967295 - int (length result)))") auto

declare phaseLoop.simps [simp del]

text \<open>
  \<open>start\<close> and \<open>end\<close> are the first two pieces of the split, which has at least two
  pieces when the string contains \<open>-\<close>.
\<close>

definition parsePhases :: "(string \<Rightarrow> json option) \<Rightarrow> string \<Rightarrow> error + json" where
  "parsePhases JSON_parse phasesString =
     (if includes_str phasesString ''-''
      then (case map (\<lambda>s. parseInt (trim s)) (split CHR ''-'' phasesString) of
              start # end' # _ \<Rightarrow>
                (case phaseLoop start end' [] of
                   Inl e \<Rightarrow> Inl e
                 | Inr result \<Rightarrow> Inr (JArr (map JNum result)))
            | _ \<Rightarrow> Inr (JArr []))
      else Inr (parseSlots JSON_parse phasesString))"

text \<open>
  A raw row maps a column name to the cell the file parser produced: a string from a CSV
  file; a string, a number or a boolean from a spreadsheet; \<open>undefined\<close> for a column the
  row does not have.
\<close>

datatype cell = Undefined | CStr string | CNum number | CBool bool

type_synonym row = "string \<Rightarrow> cell"

fun truthy :: "cell \<Rightarrow> bool" where
  "truthy Undefined = False"
| "truthy (CStr s) = (s \<noteq> [])"
| "truthy (CNum NaN) = False"
| "truthy (CNum (Num i)) = (i \<noteq> 0)"
| "truthy (CNum Infinity) = True"
| "truthy (CNum NegInfinity) = True"
| "truthy (CBool b) = b"

text \<open>The expression \<open>v || d\<close> for a string literal \<open>d\<close>.\<close>

definition orElse :: "cell \<Rightarrow> string \<Rightarrow> cell" where
  "orElse v d = (if truthy v then v else CStr d)"

text \<open>\<open>String(v)\<close>, also the conversion \<open>parseInt\<close> applies to its argument.\<close>

fun toString :: "cell \<Rightarrow> string" where
  "toString Undefined = ''undefined''"
| "toString (CStr s) = s"
| "toString (CNum n) = numberToString n"
| "toString (CBool b) = (if b then ''true'' else ''false'')"

fun cellToJson :: "cell \<Rightarrow> json" where
  "cellToJson Undefined = JNull"
| "cellToJson (CStr s) = JStr s"
| "cellToJson (CNum n) = JNum n"
| "cellToJson (CBool b) = JBool b"

text \<open>
  A list field: the cell or the empty string, split at commas, each piece trimmed, the
  empty pieces dropped (\<open>filter(Boolean)\<close>). Only a string has a \<open>split\<close> method: on a
  number or a boolean the call throws a \<open>TypeError\<close>.
\<close>

definition splitList :: "cell \<Rightarrow> error + string list" where
  "splitList v =
     (case orElse v [] of
        CStr s \<Rightarrow> Inr (filter (\<lambda>s. s \<noteq> []) (map trim (split CHR '','' s)))
      | _ \<Rightarrow> Inl TypeError)"

text \<open>
  A call of \<open>parseSlots\<close> or \<open>parsePhases\<close> on a cell: the first thing either function
  does is a string method of its argument (\<open>startsWith\<close>, \<open>includes\<close>), which throws a
  \<open>TypeError\<close> on a non-string.
\<close>

definition callWithString :: "(string \<Rightarrow> error + json) \<Rightarrow> cell \<Rightarrow> error + json" where
  "callWithString f v = (case v of CStr s \<Rightarrow> f s | _ \<Rightarrow> Inl TypeError)"

datatype entityType = TClients | TWorkers | TTasks

datatype entity = ClientRecord Client | WorkerRecord Worker | TaskRecord Task

definition normalizeRow :: "(string \<Rightarrow> json option) \<Rightarrow> entityType \<Rightarrow> nat \<Rightarrow> row \<Rightarrow> error + entity" where
  "normalizeRow JSON_parse type index row =
     (case type of
        TClients \<Rightarrow>
          (case splitList (row ''RequestedTaskIDs'') of
             Inl e \<Rightarrow> Inl e
           | Inr requested \<Rightarrow> Inr (ClientRecord
               \<lparr>ClientID = toString (orElse (row ''ClientID'') (''C'' @ showNat (index + 1))),
                ClientName = toString (orElse (row ''ClientName'') ''Unknown''),
                PriorityLevel = parseInt (toString (orElse (row ''PriorityLevel'') ''1'')),
                RequestedTaskIDs = requested,
                GroupTag = toString (orElse (row ''GroupTag'') ''Default''),
                AttributesJSON =
                  (case row ''AttributesJSON'' of
                     CStr s \<Rightarrow> (case JSON_parse s of Some v \<Rightarrow> v | None \<Rightarrow> JObj [])
                   | v \<Rightarrow> if truthy v then cellToJson v else JObj [])\<rparr>))
      | TWorkers \<Rightarrow>
          (case splitList (row ''Skills'') of
             Inl e \<Rightarrow> Inl e
           | Inr skills \<Rightarrow>
          (case callWithString (\<lambda>s. Inr (parseSlots JSON_parse s))
                  (orElse (row ''AvailableSlots'') ''[]'') of
             Inl e \<Rightarrow> Inl e
           | Inr slots \<Rightarrow> Inr (WorkerRecord
               \<lparr>WorkerID = toString (orElse (row ''WorkerID'') (''W'' @ showNat (index + 1))),
                WorkerName = toString (orElse (row ''WorkerName'') ''Unknown''),
                Skills = skills,
                AvailableSlots = slots,
                MaxLoadPerPhase = parseInt (toString (orElse (row ''MaxLoadPerPhase'') ''1'')),
                WorkerGroup = toString (orElse (row ''WorkerGroup'') ''Default''),
                QualificationLevel = parseInt (toString (orElse (row ''QualificationLevel'') ''1''))\<rparr>)))
      | TTasks \<Rightarrow>
          (case splitList (row ''RequiredSkills'') of
             Inl e \<Rightarrow> Inl e
           | Inr skills \<Rightarrow>
          (case callWithString (parsePhases JSON_parse) (orElse (row ''PreferredPhases'') ''[]'') of
             Inl e \<Rightarrow> Inl e
           | Inr phases \<Rightarrow> Inr (TaskRecord
               \<lparr>TaskID = toString (orElse (row ''TaskID'') (''T'' @ showNat (index + 1))),
                TaskName = toString (orElse (row ''TaskName'') ''Unknown''),
                Category = toString (orElse (row ''Category'') ''General''),
                Duration = parseInt (toString (orElse (row ''Duration'') ''1'')),
                RequiredSkills = skills,
                PreferredPhases = phases,
                MaxConcurrent = parseInt (toString (orElse (row ''MaxConcurrent'') ''1''))\<rparr>))))"

text \<open>\<open>rawData.map((row, index) => ...)\<close>: the first row that throws ends the whole call.\<close>

fun mapRows :: "(nat \<Rightarrow> row \<Rightarrow> error + entity) \<Rightarrow> nat \<Rightarrow> row list \<Rightarrow> error + entity list" where
  "mapRows f index [] = Inr []"
| "mapRows f index (row # rows) =
     (case f index row of
        Inl e \<Rightarrow> Inl e
      | Inr x \<Rightarrow> (case mapRows f (Suc index) rows of Inl e \<Rightarrow> Inl e | Inr xs \<Rightarrow> Inr (x # xs)))"

definition normalizeData :: "(string \<Rightarrow> json option) \<Rightarrow> row list \<Rightarrow> entityType \<Rightarrow> error + entity list" where
  "normalizeData JSON_parse rawData type = mapRows (normalizeRow JSON_parse type) 0 rawData"

section \<open>The AI client and its local fallback\<close>

text \<open>
  The object \<open>geminiAI\<close> holds the API key read from the environment; a key that is
  absent or empty is falsy. The answer of the remote service is an input of the model:
  \<open>Some text\<close> is the text of the first candidate of a successful request, \<open>None\<close> a
  request that threw, was not \<open>ok\<close> or had no candidate. The prompt is not modelled, since
  nothing constrains what the service answers to it.
\<close>

record GeminiAI =
  apiKey :: "string option"

definition generateContent :: "GeminiAI \<Rightarrow> string option \<Rightarrow> string" where
  "generateContent this response =
     (if apiKey this = None \<or> apiKey this = Some [] then ''API key not configured''
      else (case response of
              None \<Rightarrow> ''AI temporarily unavailable''
            | Some result \<Rightarrow> if result = [] then ''AI temporarily unavailable'' else result))"

text \<open>
  \<open>s.replace(/```json|```/g, '''')\<close>: every code fence is removed, scanning from the
  left, the longer alternative first.
\<close>

function removeFences :: "string \<Rightarrow> string" where
  "removeFences s =
     (if startsWith s ''```json'' then removeFences (drop 7 s)
      else if startsWith s ''```'' then removeFences (drop 3 s)
      else (case s of [] \<Rightarrow> [] | c # cs \<Rightarrow> c # removeFences cs))"
  by pat_completeness auto
termination
proof (relation "measure length")
  show "wf (measure length)"
    by simp
next
  fix s :: string
  assume "startsWith s ''```json''"
  then have "s \<noteq> []"
    by (auto simp: startsWith_def)
  then show "(drop 7 s, s) \<in> measure length"
    by simp
next
  fix s :: string
  assume "startsWith s ''```''"
  then have "s \<noteq> []"
    by (auto simp: startsWith_def)
  then show "(drop 3 s, s) \<in> measure length"
    by simp
next
  fix s :: string and c cs
  assume "s = c # cs"
  then show "(cs, s) \<in> measure length"
    by simp
qed

declare removeFences.simps [simp del]

text \<open>
  \<open>s.match(/\[[\s\S]*\]/)\<close>: the leftmost \<open>[\<close> that has a \<open>]\<close> after it, up to the last
  \<open>]\<close> of the string. If the first \<open>[\<close> has no \<open>]\<close> after it then no later one has.
\<close>

definition matchBrackets :: "string \<Rightarrow> string option" where
  "matchBrackets s =
     (case dropWhile (\<lambda>c. c \<noteq> CHR ''['') s of
        [] \<Rightarrow> None
      | c # rest \<Rightarrow>
          (let inner = rev (dropWhile (\<lambda>c. c \<noteq> CHR '']'') (rev rest))
           in if inner = [] then None else Some (c # inner)))"

datatype source = ai | local'

record searchResult =
  results :: "json list"
  source :: source

text \<open>The body of the \<open>try\<close> block of \<open>searchData\<close>: \<open>Inl\<close> is a \<open>throw\<close>.\<close>

definition aiSearch :: "(string \<Rightarrow> json option) \<Rightarrow> GeminiAI \<Rightarrow> string option \<Rightarrow> error + json list" where
  "aiSearch JSON_parse this aiResponse =
     (let response = generateContent this aiResponse
      in if response = ''API key not configured'' \<or> response = ''AI temporarily unavailable''
         then Inl (Error response)
         else
           (let cleanedResponse = trim (removeFences response);
                parsed = (case JSON_parse cleanedResponse of
                            Some v \<Rightarrow> Inr v
                          | None \<Rightarrow>
                              (case matchBrackets cleanedResponse of
                                 Some jsonMatch \<Rightarrow>
                                   (case JSON_parse jsonMatch of
                                      Some v \<Rightarrow> Inr v
                                    | None \<Rightarrow> Inl SyntaxError)
                               | None \<Rightarrow> Inl (Error ''No valid JSON found in response'')))
            in case parsed of
                 Inl e \<Rightarrow> Inl e
               | Inr (JArr parsedResults) \<Rightarrow> Inr parsedResults
               | Inr _ \<Rightarrow> Inl (Error ''Response is not an array'')))"

definition searchData ::
  "(string \<Rightarrow> json option) \<Rightarrow> (json \<Rightarrow> string) \<Rightarrow> GeminiAI \<Rightarrow> string option \<Rightarrow> string \<Rightarrow> json list \<Rightarrow> searchResult" where
  "searchData JSON_parse JSON_stringify this aiResponse query data =
     (if trim query = [] \<or> length data = 0
      then \<lparr>results = [], source = local'\<rparr>
      else
        (case aiSearch JSON_parse this aiResponse of
           Inr parsedResults \<Rightarrow> \<lparr>results = take 20 parsedResults, source = ai\<rparr>
         | Inl e \<Rightarrow>
             (let localResults =
                    take 20 (filter (\<lambda>item.
                               let searchLower = toLowerCase query;
                                   itemString = toLowerCase (JSON_stringify item)
                               in includes_str itemString searchLower) data)
              in \<lparr>results = localResults, source = local'\<rparr>)))"

section \<open>Application state, export and quality score\<close>

record Rule =
  rule_id :: string
  rule_type :: string
  name :: string
  description :: string
  config :: json
  active :: bool

record PriorityWeights =
  priorityLevel :: number
  taskFulfillment :: number
  fairness :: number
  workloadBalance :: number
  skillMatch :: number

text \<open>The state of the component that the functions below read.\<close>

record AppState =
  clients :: "Client list"
  workers :: "Worker list"
  tasks :: "Task list"
  errors :: "ValidationError list"
  rules :: "Rule list"
  priorityWeights :: PriorityWeights

text \<open>The re-validation every edit ends with: \<open>setErrors(validateData(clients, workers, tasks))\<close>.\<close>

definition revalidate :: "AppState \<Rightarrow> AppState" where
  "revalidate st = st\<lparr>errors := validateData (clients st) (workers st) (tasks st)\<rparr>"

text \<open>
  A sheet is the list of row objects given to \<open>json_to_sheet\<close>; a workbook is the list of
  its named sheets in the order \<open>book_append_sheet\<close> added them.
\<close>

datatype sheet =
    ClientsSheet "(string, string) client list"
  | WorkersSheet "(string, string) worker list"
  | TasksSheet "(string, string) task list"

type_synonym workbook = "(string \<times> sheet) list"

definition book_new :: workbook where
  "book_new = []"

definition book_append_sheet :: "workbook \<Rightarrow> sheet \<Rightarrow> string \<Rightarrow> workbook" where
  "book_append_sheet wb sh nm = wb @ [(nm, sh)]"

text \<open>The objects of the rules file as \<open>JSON.stringify\<close> sees them.\<close>

definition ruleToJson :: "Rule \<Rightarrow> json" where
  "ruleToJson r =
     JObj [(''id'', JStr (rule_id r)), (''type'', JStr (rule_type r)), (''name'', JStr (name r)),
           (''description'', JStr (description r)), (''config'', config r),
           (''active'', JBool (active r))]"

definition weightsToJson :: "PriorityWeights \<Rightarrow> json" where
  "weightsToJson w =
     JObj [(''priorityLevel'', JNum (priorityLevel w)),
           (''taskFulfillment'', JNum (taskFulfillment w)),
           (''fairness'', JNum (fairness w)),
           (''workloadBalance'', JNum (workloadBalance w)),
           (''skillMatch'', JNum (skillMatch w))]"

text \<open>What \<open>exportData\<close> hands to the browser: two downloads, each with its file name.\<close>

record exported =
  workbookFile :: string
  workbookData :: workbook
  rulesFile :: string
  rulesBlob :: string

text \<open>
  \<open>JSON_stringify\<close> is \<open>JSON.stringify(v)\<close> and \<open>JSON_stringify2\<close> is
  \<open>JSON.stringify(v, null, 2)\<close>, the indented form used for the rules file.
\<close>

definition exportData :: "(json \<Rightarrow> string) \<Rightarrow> (json \<Rightarrow> string) \<Rightarrow> AppState \<Rightarrow> exported" where
  "exportData JSON_stringify JSON_stringify2 st =
     (let workbook = book_new;
          clientsSheet = ClientsSheet (map (\<lambda>c.
              \<lparr>ClientID = ClientID c, ClientName = ClientName c, PriorityLevel = PriorityLevel c,
               RequestedTaskIDs = join '','' (RequestedTaskIDs c),
               GroupTag = GroupTag c,
               AttributesJSON = JSON_stringify (AttributesJSON c)\<rparr>) (clients st));
          workbook = book_append_sheet workbook clientsSheet ''Clients'';
          workersSheet = WorkersSheet (map (\<lambda>w.
              \<lparr>WorkerID = WorkerID w, WorkerName = WorkerName w,
               Skills = join '','' (Skills w),
               AvailableSlots = JSON_stringify (AvailableSlots w),
               MaxLoadPerPhase = MaxLoadPerPhase w, WorkerGroup = WorkerGroup w,
               QualificationLevel = QualificationLevel w\<rparr>) (workers st));
          workbook = book_append_sheet workbook workersSheet ''Workers'';
          tasksSheet = TasksSheet (map (\<lambda>t.
              \<lparr>TaskID = TaskID t, TaskName = TaskName t, Category = Category t,
               Duration = Duration t,
               RequiredSkills = join '','' (RequiredSkills t),
               PreferredPhases = JSON_stringify (PreferredPhases t),
               MaxConcurrent = MaxConcurrent t\<rparr>) (tasks st));
          workbook = book_append_sheet workbook tasksSheet ''Tasks'';
          rulesBlob = JSON_stringify2 (JObj [(''rules'', JArr (map ruleToJson (rules st))),
                                             (''priorityWeights'', weightsToJson (priorityWeights st))])
      in \<lparr>workbookFile = ''data-alchemist-export.xlsx'', workbookData = workbook,
          rulesFile = ''rules-config.json'', rulesBlob = rulesBlob\<rparr>)"

definition totalRecords :: "AppState \<Rightarrow> nat" where
  "totalRecords st = length (clients st) + length (workers st) + length (tasks st)"

definition errorCount :: "AppState \<Rightarrow> nat" where
  "errorCount st = length (filter (\<lambda>e. type' e = error) (errors st))"

definition warningCount :: "AppState \<Rightarrow> nat" where
  "warningCount st = length (filter (\<lambda>e. type' e = warning) (errors st))"

text \<open>\<open>Math.round\<close> rounds to the nearest integer, a half upwards.\<close>

definition Math_round :: "rat \<Rightarrow> int" where
  "Math_round x = \<lfloor>x + 1 / 2\<rfloor>"

text \<open>
  The three counts are lengths of arrays. The quotients are taken in exact rational
  arithmetic; the result is clamped after rounding, so the bounds do not depend on how a
  floating-point quotient is rounded.
\<close>

definition calculateDataQuality :: "nat \<Rightarrow> nat \<Rightarrow> nat \<Rightarrow> int" where
  "calculateDataQuality totalRecs errs warns =
     (if totalRecs = 0 then 100
      else
        (let validRecords = int totalRecs - int errs;
             baseQuality = max 0 ((of_int validRecords / of_nat totalRecs) * 100 :: rat);
             warningPenalty = (of_nat warns / of_nat totalRecs) * 10
         in max 0 (min 100 (Math_round (baseQuality - warningPenalty)))))"

definition dataQuality :: "AppState \<Rightarrow> int" where
  "dataQuality st = calculateDataQuality (totalRecords st) (errorCount st) (warningCount st)"

section \<open>Specification vocabulary\<close>

text \<open>
  The six error objects \<open>validateData\<close> can push, named after what they report, and the
  errors one loop iteration contributes given the entries before it.
\<close>


definition dupClientError :: "Client \<Rightarrow> ValidationError" where
  "dupClientError client =
     \<lparr>id' = ''dup-client-'' @ ClientID client, type' = error, entityId = ClientID client,
      field = Some ''ClientID'', message = ''Duplicate Client ID: '' @ ClientID client,
      suggestion = Some ''Use unique IDs for each client''\<rparr>"

definition priorityError :: "Client \<Rightarrow> ValidationError" where
  "priorityError client =
     \<lparr>id' = ''priority-'' @ ClientID client, type' = error, entityId = ClientID client,
      field = Some ''PriorityLevel'',
      message = ''Priority must be 1-5, got '' @ numberToString (PriorityLevel client),
      suggestion = Some ''Set priority between 1 and 5''\<rparr>"

definition unknownTaskError :: "Client \<Rightarrow> string \<Rightarrow> ValidationError" where
  "unknownTaskError client taskId =
     \<lparr>id' = ''unknown-task-'' @ ClientID client @ ''-'' @ taskId, type' = error,
      entityId = ClientID client, field = Some ''RequestedTaskIDs'',
      message = ''Unknown task ID: '' @ taskId,
      suggestion = Some ''Remove invalid task ID or add corresponding task''\<rparr>"

definition dupWorkerError :: "Worker \<Rightarrow> ValidationError" where
  "dupWorkerError worker =
     \<lparr>id' = ''dup-worker-'' @ WorkerID worker, type' = error, entityId = WorkerID worker,
      field = Some ''WorkerID'', message = ''Duplicate Worker ID: '' @ WorkerID worker,
      suggestion = Some ''Use unique IDs for each worker''\<rparr>"

definition qualificationError :: "Worker \<Rightarrow> ValidationError" where
  "qualificationError worker =
     \<lparr>id' = ''qual-'' @ WorkerID worker, type' = error, entityId = WorkerID worker,
      field = Some ''QualificationLevel'',
      message = ''Qualification must be 1-5, got '' @ numberToString (QualificationLevel worker),
      suggestion = Some ''Set qualification between 1 and 5''\<rparr>"

definition durationError :: "Task \<Rightarrow> ValidationError" where
  "durationError task =
     \<lparr>id' = ''duration-'' @ TaskID task, type' = error, entityId = TaskID task,
      field = Some ''Duration'',
      message = ''Duration must be at least 1, got '' @ numberToString (Duration task),
      suggestion = Some ''Set duration to positive number''\<rparr>"

definition outOfRange :: "number \<Rightarrow> bool" where
  "outOfRange n = (lt n (Num 1) \<or> gt n (Num 5))"

definition clientErrorsAt :: "Client list \<Rightarrow> Client \<Rightarrow> ValidationError list" where
  "clientErrorsAt earlier client =
     (if ClientID client \<in> ClientID ` set earlier then [dupClientError client] else []) @
     (if outOfRange (PriorityLevel client) then [priorityError client] else [])"

definition workerErrorsAt :: "Worker list \<Rightarrow> Worker \<Rightarrow> ValidationError list" where
  "workerErrorsAt earlier worker =
     (if WorkerID worker \<in> WorkerID ` set earlier then [dupWorkerError worker] else []) @
     (if outOfRange (QualificationLevel worker) then [qualificationError worker] else [])"

definition refErrorsOf :: "string set \<Rightarrow> Client \<Rightarrow> ValidationError list" where
  "refErrorsOf taskIds client =
     map (unknownTaskError client) (filter (\<lambda>taskId. taskId \<notin> taskIds) (RequestedTaskIDs client))"

definition hasEarlier :: "('a \<Rightarrow> string) \<Rightarrow> 'a list \<Rightarrow> nat \<Rightarrow> bool" where
  "hasEarlier key xs i = (key (xs ! i) \<in> key ` set (take i xs))"

text \<open>Small concrete records for the worked instances.\<close>

definition mkClient :: "string \<Rightarrow> number \<Rightarrow> string list \<Rightarrow> Client" where
  "mkClient cid p req =
     \<lparr>ClientID = cid, ClientName = ''Acme'', PriorityLevel = p, RequestedTaskIDs = req,
      GroupTag = ''Default'', AttributesJSON = JObj []\<rparr>"

definition mkWorker :: "string \<Rightarrow> number \<Rightarrow> Worker" where
  "mkWorker wid q =
     \<lparr>WorkerID = wid, WorkerName = ''Ann'', Skills = [''coding''], AvailableSlots = JArr [],
      MaxLoadPerPhase = Num 1, WorkerGroup = ''Default'', QualificationLevel = q\<rparr>"

definition mkTask :: "string \<Rightarrow> number \<Rightarrow> Task" where
  "mkTask tid d =
     \<lparr>TaskID = tid, TaskName = ''Build'', Category = ''General'', Duration = d,
      RequiredSkills = [], PreferredPhases = JArr [], MaxConcurrent = Num 1\<rparr>"

text \<open>
  A \<open>JSON.parse\<close> given by a finite table of the inputs an instance uses; it throws on
  every other input.
\<close>

definition parseTable :: "(string \<times> json) list \<Rightarrow> string \<Rightarrow> json option" where
  "parseTable tbl s = map_of tbl s"

text \<open>
  A \<open>JSON.stringify\<close> given by a finite table, and two client objects with the strings
  \<open>JSON.stringify\<close> gives for them.
\<close>

definition stringifyTable :: "(json \<times> string) list \<Rightarrow> json \<Rightarrow> string" where
  "stringifyTable tbl v = (case map_of tbl v of Some s \<Rightarrow> s | None \<Rightarrow> ''null'')"

definition acme :: json where
  "acme = JObj [(''ClientName'', JStr ''Acme Corp'')]"

definition zenith :: json where
  "zenith = JObj [(''ClientName'', JStr ''Zenith'')]"

definition sampleStringify :: "json \<Rightarrow> string" where
  \<open>sampleStringify = stringifyTable [(acme, ''{"ClientName":"Acme Corp"}''), (zenith, ''{"ClientName":"Zenith"}'')]\<close>

text \<open>A raw row given by the cells it has, and a task row as a spreadsheet delivers it.\<close>

definition cells :: "(string \<times> cell) list \<Rightarrow> row" where
  "cells tbl column = (case map_of tbl column of Some c \<Rightarrow> c | None \<Rightarrow> Undefined)"

definition sheetTaskRow :: row where
  "sheetTaskRow =
     cells [(''TaskID'', CStr ''T1''), (''TaskName'', CStr ''Build''), (''Category'', CStr ''Dev''),
            (''Duration'', CNum (Num 2)), (''RequiredSkills'', CStr ''coding''),
            (''PreferredPhases'', CNum (Num 2)), (''MaxConcurrent'', CNum (Num 1))]"

text \<open>
  The columns of an entity type that \<open>normalizeData\<close> treats with string methods, and the
  cells these methods accept: a string, or a falsy value that the default replaces.
\<close>

definition listColumns :: "entityType \<Rightarrow> string list" where
  "listColumns type =
     (case type of
        TClients \<Rightarrow> [''RequestedTaskIDs'']
      | TWorkers \<Rightarrow> [''Skills'', ''AvailableSlots'']
      | TTasks \<Rightarrow> [''RequiredSkills'', ''PreferredPhases''])"

definition textOrFalsy :: "cell \<Rightarrow> bool" where
  "textOrFalsy v = (case v of CStr s \<Rightarrow> True | _ \<Rightarrow> \<not> truthy v)"

text \<open>
  The two middle steps of \<open>parseInt\<close> on their own: the sign with the text after it, and
  the radix with the run of digits.
\<close>

definition digitRun :: "string \<Rightarrow> nat \<times> string" where
  "digitRun s2 =
     (let (radix, s3) = (if startsWith s2 ''0x'' \<or> startsWith s2 ''0X''
                         then (16, drop 2 s2) else (10, s2))
      in (radix, takeWhile (isDigitOf radix) s3))"

definition signed :: "string \<Rightarrow> bool \<times> string" where
  "signed s1 =
     (case s1 of
        c # r \<Rightarrow> if c = CHR ''-'' then (True, r)
                 else if c = CHR ''+'' then (False, r)
                 else (False, s1)
      | [] \<Rightarrow> (False, s1))"

section \<open>Properties of validation\<close>

lemma positions_snoc:
  "map (\<lambda>i. g (take i (xs @ [x])) ((xs @ [x]) ! i)) [0..<length (xs @ [x])] =
   map (\<lambda>i. g (take i xs) (xs ! i)) [0..<length xs] @ [g xs x]"
proof -
  have "map (\<lambda>i. g (take i (xs @ [x])) ((xs @ [x]) ! i)) [0..<length xs] =
        map (\<lambda>i. g (take i xs) (xs ! i)) [0..<length xs]"
    by (rule map_cong) (simp_all add: nth_append)
  then show ?thesis by simp
qed

lemma fold_clientStep:
  "fold clientStep cs ([], {}) =
     (concat (map (\<lambda>i. clientErrorsAt (take i cs) (cs ! i)) [0..<length cs]), ClientID ` set cs)"
proof (induction cs rule: rev_induct)
  case Nil
  show ?case by simp
next
  case (snoc c cs)
  have step: "clientStep c (es, ClientID ` set cs) =
      (es @ clientErrorsAt cs c, ClientID ` set (cs @ [c]))" for es
    by (simp add: clientStep_def clientErrorsAt_def dupClientError_def priorityError_def
        outOfRange_def Let_def)
  show ?case
    unfolding positions_snoc fold_append comp_def fold_simps snoc.IH step
    by simp
qed

lemma fold_workerStep:
  "fold workerStep ws (es, {}) =
     (es @ concat (map (\<lambda>i. workerErrorsAt (take i ws) (ws ! i)) [0..<length ws]), WorkerID ` set ws)"
proof (induction ws rule: rev_induct)
  case Nil
  show ?case by simp
next
  case (snoc w ws)
  have step: "workerStep w (es', WorkerID ` set ws) =
      (es' @ workerErrorsAt ws w, WorkerID ` set (ws @ [w]))" for es'
    by (simp add: workerStep_def workerErrorsAt_def dupWorkerError_def qualificationError_def
        outOfRange_def Let_def)
  show ?case
    unfolding positions_snoc fold_append comp_def fold_simps snoc.IH step
    by simp
qed

lemma fold_taskRefStep:
  "fold (taskRefStep taskIds c) ids es =
     es @ map (unknownTaskError c) (filter (\<lambda>taskId. taskId \<notin> taskIds) ids)"
  by (induction ids arbitrary: es) (simp_all add: taskRefStep_def unknownTaskError_def)

lemma fold_clientRefStep:
  "fold (clientRefStep taskIds) cs es = es @ concat (map (refErrorsOf taskIds) cs)"
  by (induction cs arbitrary: es)
     (simp_all add: clientRefStep_def fold_taskRefStep refErrorsOf_def)

lemma fold_taskStep:
  "fold taskStep ts es = es @ map durationError (filter (\<lambda>t. lt (Duration t) (Num 1)) ts)"
  by (induction ts arbitrary: es) (simp_all add: taskStep_def durationError_def)

lemma validateData_parts:
  "validateData cs ws ts =
     concat (map (\<lambda>i. clientErrorsAt (take i cs) (cs ! i)) [0..<length cs]) @
     concat (map (refErrorsOf (TaskID ` set ts)) cs) @
     concat (map (\<lambda>i. workerErrorsAt (take i ws) (ws ! i)) [0..<length ws]) @
     map durationError (filter (\<lambda>t. lt (Duration t) (Num 1)) ts)"
  by (simp add: validateData_def fold_clientStep fold_clientRefStep fold_workerStep fold_taskStep)


lemma field_errors [simp]:
  "field (dupClientError c) = Some ''ClientID''"
  "field (priorityError c) = Some ''PriorityLevel''"
  "field (unknownTaskError c t) = Some ''RequestedTaskIDs''"
  "field (dupWorkerError w) = Some ''WorkerID''"
  "field (qualificationError w) = Some ''QualificationLevel''"
  "field (durationError k) = Some ''Duration''"
  by (simp_all add: dupClientError_def priorityError_def unknownTaskError_def
      dupWorkerError_def qualificationError_def durationError_def)

lemma concat_map_if:
  "concat (map (\<lambda>x. if P x then [f x] else []) xs) = map f (filter P xs)"
  by (induction xs) simp_all

lemma map_positions: "map (\<lambda>i. g (xs ! i)) [0..<length xs] = map g xs"
proof -
  have "map g (map ((!) xs) [0..<length xs]) = map g xs"
    by (simp only: map_nth)
  then show ?thesis
    by (simp only: map_map comp_def)
qed

lemma filter_concat_map:
  "filter P (concat (map g xs)) = concat (map (\<lambda>x. filter P (g x)) xs)"
  by (induction xs) simp_all

lemma filter_map_const_False:
  assumes "\<And>x. \<not> P (f x)"
  shows "filter P (map f xs) = []"
proof (induction xs)
  case Nil
  show ?case by simp
next
  case (Cons x xs)
  from assms [of x] Cons.IH show ?case by simp
qed

lemma concat_map_Nil: "concat (map (\<lambda>x. []) xs) = []"
  by (induction xs) simp_all

lemma distinct_no_earlier:
  assumes "distinct (map key xs)" and "i < length xs"
  shows "\<not> hasEarlier key xs i"
proof
  assume "hasEarlier key xs i"
  then obtain y where y: "y \<in> set (take i xs)" and k: "key (xs ! i) = key y"
    by (auto simp: hasEarlier_def)
  from y obtain j where j: "j < length (take i xs)" and yj: "take i xs ! j = y"
    by (auto simp: in_set_conv_nth)
  from j assms(2) have ji: "j < i" and jl: "j < length xs" by simp_all
  with yj have "xs ! j = y" by simp
  with k jl assms(2) have "map key xs ! i = map key xs ! j" by simp
  moreover have "i < length (map key xs)" "j < length (map key xs)"
    using jl assms(2) by simp_all
  ultimately have "i = j"
    using assms(1) nth_eq_iff_index_eq [of "map key xs" i j] by blast
  with ji show False by simp
qed

lemma hasEarlier_fun: "hasEarlier key xs = (\<lambda>i. key (xs ! i) \<in> key ` set (take i xs))"
  by (simp add: fun_eq_iff hasEarlier_def)

lemma filter_no_earlier:
  "distinct (map key xs) \<Longrightarrow> filter (hasEarlier key xs) [0..<length xs] = []"
  by (auto simp: filter_empty_conv dest: distinct_no_earlier)

lemma dup_client_filter:
  "filter (\<lambda>e. field e = Some ''ClientID'') (validateData cs ws ts) =
     map (\<lambda>i. dupClientError (cs ! i)) (filter (hasEarlier ClientID cs) [0..<length cs])"
  by (simp add: validateData_parts filter_concat_map clientErrorsAt_def workerErrorsAt_def
      refErrorsOf_def filter_map_const_False concat_map_Nil hasEarlier_fun
      concat_map_if [where f = "\<lambda>i. dupClientError (cs ! i)"] cong: if_cong)

lemma dup_worker_filter:
  "filter (\<lambda>e. field e = Some ''WorkerID'') (validateData cs ws ts) =
     map (\<lambda>i. dupWorkerError (ws ! i)) (filter (hasEarlier WorkerID ws) [0..<length ws])"
  by (simp add: validateData_parts filter_concat_map clientErrorsAt_def workerErrorsAt_def
      refErrorsOf_def filter_map_const_False concat_map_Nil hasEarlier_fun
      concat_map_if [where f = "\<lambda>i. dupWorkerError (ws ! i)"] cong: if_cong)

lemma range_filter_gen:
  "concat (map (\<lambda>i. if P (xs ! i) then [f (xs ! i)] else []) [0..<length xs]) = map f (filter P xs)"
  using map_positions [of "\<lambda>x. if P x then [f x] else []" xs]
  by (simp add: concat_map_if [symmetric])

lemma priority_filter:
  "filter (\<lambda>e. field e = Some ''PriorityLevel'') (validateData cs ws ts) =
     map priorityError (filter (\<lambda>c. outOfRange (PriorityLevel c)) cs)"
  by (simp add: validateData_parts filter_concat_map clientErrorsAt_def workerErrorsAt_def
      refErrorsOf_def filter_map_const_False concat_map_Nil
      range_filter_gen [where f = priorityError and P = "\<lambda>c. outOfRange (PriorityLevel c)"] cong: if_cong)

lemma qualification_filter:
  "filter (\<lambda>e. field e = Some ''QualificationLevel'') (validateData cs ws ts) =
     map qualificationError (filter (\<lambda>w. outOfRange (QualificationLevel w)) ws)"
  by (simp add: validateData_parts filter_concat_map clientErrorsAt_def workerErrorsAt_def
      refErrorsOf_def filter_map_const_False concat_map_Nil
      range_filter_gen [where f = qualificationError and P = "\<lambda>w. outOfRange (QualificationLevel w)"] cong: if_cong)

lemma duration_filter:
  "filter (\<lambda>e. field e = Some ''Duration'') (validateData cs ws ts) =
     map durationError (filter (\<lambda>t. lt (Duration t) (Num 1)) ts)"
  by (simp add: validateData_parts filter_concat_map clientErrorsAt_def workerErrorsAt_def
      refErrorsOf_def filter_map_const_False concat_map_Nil cong: if_cong)

lemma unknown_task_filter:
  "filter (\<lambda>e. field e = Some ''RequestedTaskIDs'') (validateData cs ws ts) =
     concat (map (refErrorsOf (TaskID ` set ts)) cs)"
  by (simp add: validateData_parts filter_concat_map clientErrorsAt_def workerErrorsAt_def
      refErrorsOf_def [abs_def] filter_map_const_False concat_map_Nil cong: if_cong)


text \<open>
  Claim C1 (referential integrity). The errors on the field \<open>RequestedTaskIDs\<close> are, in
  order, one per client and requested task identifier that no task carries. Hence the
  error for a client identifier and a task identifier is emitted exactly when a client
  with that identifier requests the task identifier and no task has it, and no such error
  is emitted when every requested identifier is the \<open>TaskID\<close> of some task.
\<close>

theorem unknown_task_errors:
  "filter (\<lambda>e. field e = Some ''RequestedTaskIDs'') (validateData cs ws ts) =
     concat (map (\<lambda>c. map (unknownTaskError c)
                        (filter (\<lambda>taskId. taskId \<notin> TaskID ` set ts) (RequestedTaskIDs c))) cs)
   \<and> (unknownTaskError c taskId \<in> set (validateData cs ws ts) \<longleftrightarrow>
        (\<exists>c' \<in> set cs. ClientID c' = ClientID c \<and> taskId \<in> set (RequestedTaskIDs c')
                        \<and> taskId \<notin> TaskID ` set ts))
   \<and> ((\<forall>c \<in> set cs. set (RequestedTaskIDs c) \<subseteq> TaskID ` set ts) \<longrightarrow>
        (\<forall>e \<in> set (validateData cs ws ts). field e \<noteq> Some ''RequestedTaskIDs''))"
proof (intro conjI)
  let ?F = "filter (\<lambda>e. field e = Some ''RequestedTaskIDs'') (validateData cs ws ts)"
  show flt: "?F = concat (map (\<lambda>c. map (unknownTaskError c)
                        (filter (\<lambda>taskId. taskId \<notin> TaskID ` set ts) (RequestedTaskIDs c))) cs)"
    by (simp add: unknown_task_filter refErrorsOf_def [abs_def])
  have "unknownTaskError c taskId \<in> set (validateData cs ws ts) \<longleftrightarrow> unknownTaskError c taskId \<in> set ?F"
    by simp
  also have "\<dots> \<longleftrightarrow> (\<exists>c' \<in> set cs. \<exists>t \<in> set (RequestedTaskIDs c'). t \<notin> TaskID ` set ts
                          \<and> unknownTaskError c taskId = unknownTaskError c' t)"
    unfolding flt by auto
  also have "\<dots> \<longleftrightarrow> (\<exists>c' \<in> set cs. ClientID c' = ClientID c \<and> taskId \<in> set (RequestedTaskIDs c')
                        \<and> taskId \<notin> TaskID ` set ts)"
    by (auto simp: unknownTaskError_def)
  finally show "unknownTaskError c taskId \<in> set (validateData cs ws ts) \<longleftrightarrow>
        (\<exists>c' \<in> set cs. ClientID c' = ClientID c \<and> taskId \<in> set (RequestedTaskIDs c')
                        \<and> taskId \<notin> TaskID ` set ts)" .
  show "(\<forall>c \<in> set cs. set (RequestedTaskIDs c) \<subseteq> TaskID ` set ts) \<longrightarrow>
        (\<forall>e \<in> set (validateData cs ws ts). field e \<noteq> Some ''RequestedTaskIDs'')"
  proof
    assume sub: "\<forall>c \<in> set cs. set (RequestedTaskIDs c) \<subseteq> TaskID ` set ts"
    have "filter (\<lambda>taskId. taskId \<notin> TaskID ` set ts) (RequestedTaskIDs c') = []"
      if "c' \<in> set cs" for c'
      using sub that by (auto simp: filter_empty_conv)
    then have "?F = []"
      unfolding flt by simp
    then show "\<forall>e \<in> set (validateData cs ws ts). field e \<noteq> Some ''RequestedTaskIDs''"
      by (simp add: filter_empty_conv)
  qed
qed

text \<open>
  An instance of C1: one client whose only request is a known task, and one client that
  also requests the unknown task \<open>T9\<close>.
\<close>

theorem unknown_task_errors_witness:
  "set (RequestedTaskIDs (mkClient ''C1'' (Num 3) [''T1''])) \<subseteq> TaskID ` set [mkTask ''T1'' (Num 2)]
   \<and> \<not> (\<exists>e \<in> set (validateData [mkClient ''C1'' (Num 3) [''T1'']] [] [mkTask ''T1'' (Num 2)]).
         field e = Some ''RequestedTaskIDs'')
   \<and> ''T9'' \<in> set (RequestedTaskIDs (mkClient ''C2'' (Num 3) [''T1'', ''T9'']))
   \<and> ''T9'' \<notin> TaskID ` set [mkTask ''T1'' (Num 2)]
   \<and> unknownTaskError (mkClient ''C2'' (Num 3) [''T1'', ''T9'']) ''T9''
         \<in> set (validateData [mkClient ''C2'' (Num 3) [''T1'', ''T9'']] [] [mkTask ''T1'' (Num 2)])"
proof -
  have h1: "set (RequestedTaskIDs (mkClient ''C1'' (Num 3) [''T1''])) \<subseteq> TaskID ` set [mkTask ''T1'' (Num 2)]"
    by (simp add: mkClient_def mkTask_def)
  have h2: "''T9'' \<in> set (RequestedTaskIDs (mkClient ''C2'' (Num 3) [''T1'', ''T9'']))"
    by (simp add: mkClient_def)
  have h3: "''T9'' \<notin> TaskID ` set [mkTask ''T1'' (Num 2)]"
    by (simp add: mkTask_def)
  from h1 have "\<forall>c \<in> set [mkClient ''C1'' (Num 3) [''T1'']].
       set (RequestedTaskIDs c) \<subseteq> TaskID ` set [mkTask ''T1'' (Num 2)]"
    by simp
  with unknown_task_errors [of "[mkClient ''C1'' (Num 3) [''T1'']]" "[]" "[mkTask ''T1'' (Num 2)]"]
  have c1: "\<not> (\<exists>e \<in> set (validateData [mkClient ''C1'' (Num 3) [''T1'']] [] [mkTask ''T1'' (Num 2)]).
         field e = Some ''RequestedTaskIDs'')"
    by blast
  from h2 h3 have "\<exists>c' \<in> set [mkClient ''C2'' (Num 3) [''T1'', ''T9'']].
         ClientID c' = ClientID (mkClient ''C2'' (Num 3) [''T1'', ''T9''])
         \<and> ''T9'' \<in> set (RequestedTaskIDs c') \<and> ''T9'' \<notin> TaskID ` set [mkTask ''T1'' (Num 2)]"
    by simp
  with unknown_task_errors [of "[mkClient ''C2'' (Num 3) [''T1'', ''T9'']]" "[]" "[mkTask ''T1'' (Num 2)]"
      "mkClient ''C2'' (Num 3) [''T1'', ''T9'']" "''T9''"]
  have c2: "unknownTaskError (mkClient ''C2'' (Num 3) [''T1'', ''T9'']) ''T9''
         \<in> set (validateData [mkClient ''C2'' (Num 3) [''T1'', ''T9'']] [] [mkTask ''T1'' (Num 2)])"
    by blast
  from h1 c1 h2 h3 c2 show ?thesis by blast
qed

text \<open>
  Claim C2 (duplicate identifiers). The errors on the field \<open>ClientID\<close> are, in order, one
  for each position of the client list whose \<open>ClientID\<close> already occurs at an earlier
  position, and likewise for workers and \<open>WorkerID\<close>; with pairwise distinct identifiers
  there is no such error.
\<close>

theorem duplicate_id_errors:
  "filter (\<lambda>e. field e = Some ''ClientID'') (validateData cs ws ts) =
     map (\<lambda>i. dupClientError (cs ! i)) (filter (hasEarlier ClientID cs) [0..<length cs])
   \<and> filter (\<lambda>e. field e = Some ''WorkerID'') (validateData cs ws ts) =
     map (\<lambda>i. dupWorkerError (ws ! i)) (filter (hasEarlier WorkerID ws) [0..<length ws])
   \<and> (distinct (map ClientID cs) \<and> distinct (map WorkerID ws) \<longrightarrow>
        (\<forall>e \<in> set (validateData cs ws ts).
            field e \<noteq> Some ''ClientID'' \<and> field e \<noteq> Some ''WorkerID''))"
proof (intro conjI impI)
  show c: "filter (\<lambda>e. field e = Some ''ClientID'') (validateData cs ws ts) =
     map (\<lambda>i. dupClientError (cs ! i)) (filter (hasEarlier ClientID cs) [0..<length cs])"
    by (rule dup_client_filter)
  show w: "filter (\<lambda>e. field e = Some ''WorkerID'') (validateData cs ws ts) =
     map (\<lambda>i. dupWorkerError (ws ! i)) (filter (hasEarlier WorkerID ws) [0..<length ws])"
    by (rule dup_worker_filter)
  assume d: "distinct (map ClientID cs) \<and> distinct (map WorkerID ws)"
  then have "filter (\<lambda>e. field e = Some ''ClientID'') (validateData cs ws ts) = []"
    and "filter (\<lambda>e. field e = Some ''WorkerID'') (validateData cs ws ts) = []"
    unfolding c w by (simp_all add: filter_no_earlier)
  then show "\<forall>e \<in> set (validateData cs ws ts).
            field e \<noteq> Some ''ClientID'' \<and> field e \<noteq> Some ''WorkerID''"
    by (simp add: filter_empty_conv)
qed

text \<open>
  An instance of C2 with two distinct client identifiers and one worker.
\<close>

theorem duplicate_id_errors_witness:
  "distinct (map ClientID [mkClient ''C1'' (Num 9) [], mkClient ''C2'' (Num 3) []])
   \<and> distinct (map WorkerID [mkWorker ''W1'' (Num 2)])
   \<and> \<not> (\<exists>e \<in> set (validateData [mkClient ''C1'' (Num 9) [], mkClient ''C2'' (Num 3) []]
                     [mkWorker ''W1'' (Num 2)] []).
          field e = Some ''ClientID'' \<or> field e = Some ''WorkerID'')"
proof -
  have h: "distinct (map ClientID [mkClient ''C1'' (Num 9) [], mkClient ''C2'' (Num 3) []])
      \<and> distinct (map WorkerID [mkWorker ''W1'' (Num 2)])"
    by (simp add: mkClient_def mkWorker_def)
  from h duplicate_id_errors [of "[mkClient ''C1'' (Num 9) [], mkClient ''C2'' (Num 3) []]"
      "[mkWorker ''W1'' (Num 2)]" "[]"]
  show ?thesis by blast
qed

text \<open>
  Claim C3 (numeric ranges). The errors on \<open>PriorityLevel\<close> are exactly those of the clients
  whose priority is less than 1 or greater than 5, the errors on \<open>QualificationLevel\<close>
  exactly those of the workers whose qualification is less than 1 or greater than 5, and
  the errors on \<open>Duration\<close> exactly those of the tasks whose duration is less than 1.
\<close>

theorem range_errors:
  "filter (\<lambda>e. field e = Some ''PriorityLevel'') (validateData cs ws ts) =
     map priorityError
       (filter (\<lambda>c. lt (PriorityLevel c) (Num 1) \<or> gt (PriorityLevel c) (Num 5)) cs)
   \<and> filter (\<lambda>e. field e = Some ''QualificationLevel'') (validateData cs ws ts) =
     map qualificationError
       (filter (\<lambda>w. lt (QualificationLevel w) (Num 1) \<or> gt (QualificationLevel w) (Num 5)) ws)
   \<and> filter (\<lambda>e. field e = Some ''Duration'') (validateData cs ws ts) =
     map durationError (filter (\<lambda>t. lt (Duration t) (Num 1)) ts)"
  using priority_filter [of cs ws ts] qualification_filter [of cs ws ts] duration_filter [of cs ws ts]
  by (simp add: outOfRange_def)

lemma validateData_fields:
  "e \<in> set (validateData cs ws ts) \<Longrightarrow>
     field e \<in> {Some ''ClientID'', Some ''PriorityLevel'', Some ''RequestedTaskIDs'',
                Some ''WorkerID'', Some ''QualificationLevel'', Some ''Duration''}"
  by (auto simp: validateData_parts clientErrorsAt_def workerErrorsAt_def refErrorsOf_def
      split: if_splits)

text \<open>
  Claim C8 (duplicate task identifiers are not flagged). No error on a field \<open>TaskID\<close>
  is ever emitted: every error is on one of six other fields. On tasks alone the result
  is the list of duration errors, whatever the identifiers are, and in general the tasks
  contribute their identifiers to the reference check and their duration errors, nothing
  else.
\<close>

theorem task_errors_only_duration:
  "(\<forall>e \<in> set (validateData cs ws ts).
       field e \<noteq> Some ''TaskID'' \<and>
       field e \<in> {Some ''ClientID'', Some ''PriorityLevel'', Some ''RequestedTaskIDs'',
                  Some ''WorkerID'', Some ''QualificationLevel'', Some ''Duration''})
   \<and> validateData [] [] ts = map durationError (filter (\<lambda>t. lt (Duration t) (Num 1)) ts)
   \<and> validateData cs ws ts =
       validateData cs ws (map (\<lambda>t. t\<lparr>Duration := Num 1\<rparr>) ts) @ validateData [] [] ts"
proof (intro conjI ballI)
  fix e assume e: "e \<in> set (validateData cs ws ts)"
  from validateData_fields [OF e]
  show "field e \<in> {Some ''ClientID'', Some ''PriorityLevel'', Some ''RequestedTaskIDs'',
                  Some ''WorkerID'', Some ''QualificationLevel'', Some ''Duration''}" .
  then show "field e \<noteq> Some ''TaskID''" by auto
next
  show "validateData [] [] ts = map durationError (filter (\<lambda>t. lt (Duration t) (Num 1)) ts)"
    by (simp add: validateData_parts)
  have ids: "TaskID ` set (map (\<lambda>t. t\<lparr>Duration := Num 1\<rparr>) ts) = TaskID ` set ts"
    by (simp add: image_image)
  have none: "filter (\<lambda>t. lt (Duration t) (Num 1)) (map (\<lambda>t. t\<lparr>Duration := Num 1\<rparr>) ts) = []"
    by (simp add: filter_empty_conv)
  show "validateData cs ws ts =
       validateData cs ws (map (\<lambda>t. t\<lparr>Duration := Num 1\<rparr>) ts) @ validateData [] [] ts"
    unfolding validateData_parts ids none by simp
qed

text \<open>
  An instance of C8: three tasks with the same identifier give two duration errors only.
\<close>

theorem task_errors_only_duration_witness:
  "validateData [] [] [mkTask ''T1'' (Num 0), mkTask ''T1'' (Num 2), mkTask ''T1'' (Num 0)] =
     [durationError (mkTask ''T1'' (Num 0)), durationError (mkTask ''T1'' (Num 0))]
   \<and> \<not> (\<exists>e \<in> set (validateData [] [] [mkTask ''T1'' (Num 0), mkTask ''T1'' (Num 2), mkTask ''T1'' (Num 0)]).
         field e = Some ''TaskID'')"
proof -
  let ?ts = "[mkTask ''T1'' (Num 0), mkTask ''T1'' (Num 2), mkTask ''T1'' (Num 0)]"
  note t = task_errors_only_duration [of "[]" "[]" ?ts]
  from t have "validateData [] [] ?ts = map durationError (filter (\<lambda>t. lt (Duration t) (Num 1)) ?ts)"
    by blast
  then have a: "validateData [] [] ?ts =
      [durationError (mkTask ''T1'' (Num 0)), durationError (mkTask ''T1'' (Num 0))]"
    by (simp add: mkTask_def)
  from t have b: "\<not> (\<exists>e \<in> set (validateData [] [] ?ts). field e = Some ''TaskID'')"
    by blast
  from a b show ?thesis by blast
qed

section \<open>Properties of the export and of the quality score\<close>

text \<open>
  Claim C10 (bounds of the quality score). With no record the score is 100, and for all
  counts of records, errors and warnings the score is an integer from 0 to 100; so is the
  score the component shows for its state.
\<close>

theorem data_quality_bounds:
  "calculateDataQuality 0 errs warns = 100
   \<and> 0 \<le> calculateDataQuality totalRecs errs warns
   \<and> calculateDataQuality totalRecs errs warns \<le> 100
   \<and> 0 \<le> dataQuality st \<and> dataQuality st \<le> 100"
  by (simp add: calculateDataQuality_def dataQuality_def Let_def)

text \<open>
  Claim C5 (rules and priority weights are inert). For one dataset and two settings of
  the rules and of the priority weights, re-validation gives the same errors and the
  export gives the same workbook; the rules file is the serialization of the object that
  holds exactly the current rules and priority weights. (\<open>validateData\<close> itself takes the
  three entity lists only.)
\<close>

theorem rules_and_weights_inert:
  "errors (revalidate (st\<lparr>rules := r1, priorityWeights := w1\<rparr>)) =
     errors (revalidate (st\<lparr>rules := r2, priorityWeights := w2\<rparr>))
   \<and> workbookData (exportData JSON_stringify JSON_stringify2 (st\<lparr>rules := r1, priorityWeights := w1\<rparr>)) =
     workbookData (exportData JSON_stringify JSON_stringify2 (st\<lparr>rules := r2, priorityWeights := w2\<rparr>))
   \<and> rulesBlob (exportData JSON_stringify JSON_stringify2 (st\<lparr>rules := r1, priorityWeights := w1\<rparr>)) =
     JSON_stringify2 (JObj [(''rules'', JArr (map ruleToJson r1)),
                            (''priorityWeights'', weightsToJson w1)])"
  by (simp add: revalidate_def exportData_def Let_def)

text \<open>
  Claim C6 (shape of the export). The workbook has the three sheets \<open>Clients\<close>, \<open>Workers\<close>
  and \<open>Tasks\<close> in this order. Row by row each sheet carries the records of the state:
  the string-array fields joined with commas, \<open>AvailableSlots\<close>, \<open>PreferredPhases\<close> and
  \<open>AttributesJSON\<close> serialized by \<open>JSON.stringify\<close>, every other field unchanged. Equal
  lists of field values also mean that no row is added or dropped.
\<close>

theorem export_shape:
  "\<exists>cr wr tr.
     workbookData (exportData JSON_stringify JSON_stringify2 st) =
       [(''Clients'', ClientsSheet cr), (''Workers'', WorkersSheet wr), (''Tasks'', TasksSheet tr)]
     \<and> map ClientID cr = map ClientID (clients st)
     \<and> map ClientName cr = map ClientName (clients st)
     \<and> map PriorityLevel cr = map PriorityLevel (clients st)
     \<and> map RequestedTaskIDs cr = map (\<lambda>c. join '','' (RequestedTaskIDs c)) (clients st)
     \<and> map GroupTag cr = map GroupTag (clients st)
     \<and> map AttributesJSON cr = map (\<lambda>c. JSON_stringify (AttributesJSON c)) (clients st)
     \<and> map WorkerID wr = map WorkerID (workers st)
     \<and> map WorkerName wr = map WorkerName (workers st)
     \<and> map Skills wr = map (\<lambda>w. join '','' (Skills w)) (workers st)
     \<and> map AvailableSlots wr = map (\<lambda>w. JSON_stringify (AvailableSlots w)) (workers st)
     \<and> map MaxLoadPerPhase wr = map MaxLoadPerPhase (workers st)
     \<and> map WorkerGroup wr = map WorkerGroup (workers st)
     \<and> map QualificationLevel wr = map QualificationLevel (workers st)
     \<and> map TaskID tr = map TaskID (tasks st)
     \<and> map TaskName tr = map TaskName (tasks st)
     \<and> map Category tr = map Category (tasks st)
     \<and> map Duration tr = map Duration (tasks st)
     \<and> map RequiredSkills tr = map (\<lambda>t. join '','' (RequiredSkills t)) (tasks st)
     \<and> map PreferredPhases tr = map (\<lambda>t. JSON_stringify (PreferredPhases t)) (tasks st)
     \<and> map MaxConcurrent tr = map MaxConcurrent (tasks st)"
  by (simp add: exportData_def Let_def book_new_def book_append_sheet_def comp_def)
section \<open>Properties of the phase and slot parsers\<close>

text \<open>
  Integers of magnitude up to \<open>2^53\<close> are doubles, so \<open>toNumber\<close> keeps them and the loop of
  \<open>parsePhases\<close> counts through them exactly; it returns the range as long as the array can
  hold it.
\<close>

lemma bitLength_le: "n < 2 ^ k \<Longrightarrow> bitLength n \<le> k"
proof (induction k arbitrary: n)
  case 0
  then show ?case by (subst bitLength.simps) simp
next
  case (Suc k)
  then have "n div 2 < 2 ^ k" by simp
  from Suc.IH [OF this] show ?case
    by (subst bitLength.simps) simp
qed

lemma bitLength_pow: "bitLength (2 ^ k) = Suc k"
proof (induction k)
  case 0
  show ?case by (subst bitLength.simps, subst bitLength.simps) simp
next
  case (Suc k)
  then show ?case by (subst bitLength.simps) simp
qed

lemma roundToDouble_top: "roundToDouble 9007199254740992 = 9007199254740992"
proof -
  have b: "bitLength 9007199254740992 = 54"
    using bitLength_pow [of 53] by simp
  show ?thesis
    unfolding roundToDouble_def b by (simp add: Let_def)
qed

lemma roundToDouble_exact: "n \<le> 2 ^ 53 \<Longrightarrow> roundToDouble n = n"
proof (cases "n < 2 ^ 53")
  case True
  then have "bitLength n \<le> 53" by (rule bitLength_le)
  then show ?thesis by (simp add: roundToDouble_def)
next
  case False
  assume "n \<le> 2 ^ 53"
  with False have "n = 9007199254740992" by simp
  then show ?thesis by (simp only: roundToDouble_top)
qed

lemma toNumber_exact: "\<bar>i\<bar> \<le> 2 ^ 53 \<Longrightarrow> toNumber i = Num i"
proof -
  assume a: "\<bar>i\<bar> \<le> 2 ^ 53"
  then have "\<bar>i\<bar> < 2 ^ 54" by simp
  then have "bitLength \<bar>i\<bar> \<le> 54" by (rule bitLength_le)
  with roundToDouble_exact [OF a] show ?thesis
    by (simp add: toNumber_def Let_def)
qed

lemma phaseLoop_range:
  assumes "- (2 ^ 53) \<le> i" and "e < 2 ^ 53"
    and "int (length acc) + (e - i) < 4294967295"
  shows "phaseLoop (Num i) (Num e) acc = Inr (acc @ map Num [i..e])"
  using assms
proof (induction "nat (e + 1 - i)" arbitrary: i acc)
  case 0
  then have "\<not> i \<le> e" by simp
  then show ?case
    by (subst phaseLoop.simps) simp
next
  case (Suc n)
  then have ie: "i \<le> e" by simp
  with Suc.prems have len: "int (length acc) < 4294967295" by simp
  from ie Suc.prems have "\<bar>i + 1\<bar> \<le> 2 ^ 53" by simp
  then have inc: "increment (Num i) = Num (i + 1)"
    by (simp add: toNumber_exact)
  have "phaseLoop (Num (i + 1)) (Num e) (acc @ [Num i]) =
          Inr ((acc @ [Num i]) @ map Num [i + 1..e])"
  proof (rule Suc.hyps(1))
    show "n = nat (e + 1 - (i + 1))" using Suc.hyps(2) by simp
    show "- (2 ^ 53) \<le> i + 1" using Suc.prems(1) by simp
    show "e < 2 ^ 53" by (rule Suc.prems(2))
    show "int (length (acc @ [Num i])) + (e - (i + 1)) < 4294967295" using Suc.prems(3) by simp
  qed
  moreover have "[i..e] = i # [i + 1..e]"
    using ie by (simp add: upto_rec1 [of i e])
  ultimately show ?case
    using ie len inc by (subst phaseLoop.simps) simp
qed

lemma phaseLoop_empty: "\<not> le i e \<Longrightarrow> phaseLoop i e acc = Inr acc"
  by (subst phaseLoop.simps) simp

text \<open>
  \<open>parseInt\<close> skips white space itself, so the \<open>trim\<close> before it changes nothing, and it
  reads no further than the first \<open>-\<close> after the digits.
\<close>

lemma parseInt_alt:
  "parseInt s =
     (let (negative, s2) = signed (trimStart s); (radix, ds) = digitRun s2
      in if ds = [] then NaN
         else toNumber ((if negative then - 1 else 1) * digitsValue radix ds))"
  by (simp add: parseInt_def signed_def digitRun_def Let_def split: prod.splits list.splits)

lemma trimStart_idem: "trimStart (trimStart s) = trimStart s"
  by (simp add: trimStart_def)

lemma parseInt_trimStart: "parseInt (trimStart s) = parseInt s"
  by (simp add: parseInt_alt trimStart_idem)

lemma not_digit_chars:
  "digitValue CHR ''0'' \<noteq> None" "digitValue CHR ''x'' \<noteq> None" "digitValue CHR ''X'' \<noteq> None"
  "digitValue CHR ''-'' = None"
  by (simp_all add: digitValue_def)

lemma whiteSpace_not_digit: "isWhiteSpace c \<Longrightarrow> digitValue c = None"
  by (auto simp: isWhiteSpace_def digitValue_def)

lemma startsWith2_extend:
  assumes "c \<noteq> p1" and "c \<noteq> p2"
  shows "startsWith (s2 @ c # w) [p1, p2] \<longleftrightarrow> startsWith s2 [p1, p2]"
proof (cases s2)
  case Nil
  with assms show ?thesis by (simp add: startsWith_def)
next
  case (Cons a t)
  with assms show ?thesis by (cases t) (simp_all add: startsWith_def)
qed

lemma startsWith2_drop: "startsWith s2 [p1, p2] \<Longrightarrow> drop 2 (s2 @ t) = drop 2 s2 @ t"
  by (cases s2; cases "tl s2") (auto simp: startsWith_def)

lemma digitRun_extend:
  assumes "digitValue c = None"
  shows "digitRun (s2 @ c # w) = digitRun s2"
proof -
  from assms not_digit_chars have ne: "c \<noteq> CHR ''0''" "c \<noteq> CHR ''x''" "c \<noteq> CHR ''X''"
    by auto
  have sx: "startsWith (s2 @ c # w) ''0x'' \<longleftrightarrow> startsWith s2 ''0x''"
    using startsWith2_extend [of c "CHR ''0''" "CHR ''x''" s2 w] ne by simp
  have sX: "startsWith (s2 @ c # w) ''0X'' \<longleftrightarrow> startsWith s2 ''0X''"
    using startsWith2_extend [of c "CHR ''0''" "CHR ''X''" s2 w] ne by simp
  from assms have nd: "\<not> isDigitOf r c" for r
    by (simp add: isDigitOf_def)
  show ?thesis
  proof (cases "startsWith s2 ''0x'' \<or> startsWith s2 ''0X''")
    case True
    then have "drop 2 (s2 @ c # w) = drop 2 s2 @ c # w"
      using startsWith2_drop by auto
    with True sx sX nd show ?thesis
      by (simp add: digitRun_def takeWhile_tail)
  next
    case False
    with sx sX nd show ?thesis
      by (simp add: digitRun_def takeWhile_tail)
  qed
qed

lemma signed_extend:
  "u \<noteq> [] \<Longrightarrow> signed (u @ t) = (fst (signed u), snd (signed u) @ t)"
  by (cases u) (simp_all add: signed_def)

lemma trimStart_head: "u \<noteq> [] \<Longrightarrow> \<not> isWhiteSpace (hd u) \<Longrightarrow> trimStart (u @ t) = u @ t"
  by (cases u) (simp_all add: trimStart_def)

lemma parseInt_extend:
  assumes "u \<noteq> []" and "\<not> isWhiteSpace (hd u)" and "digitValue c = None"
  shows "parseInt (u @ c # w) = parseInt u"
proof -
  have t1: "trimStart (u @ c # w) = u @ c # w"
    using assms(1,2) by (rule trimStart_head)
  have t2: "trimStart u = u"
    using trimStart_head [OF assms(1,2), of "[]"] by simp
  show ?thesis
    unfolding parseInt_alt t1 t2 signed_extend [OF assms(1)]
    by (simp add: digitRun_extend [OF assms(3)] split: prod.splits)
qed


lemma trimEnd_decompose:
  "\<exists>ws. s = trimEnd s @ ws \<and> (\<forall>c \<in> set ws. isWhiteSpace c)"
proof -
  have "rev s = takeWhile isWhiteSpace (rev s) @ dropWhile isWhiteSpace (rev s)"
    by simp
  then have "s = rev (dropWhile isWhiteSpace (rev s)) @ rev (takeWhile isWhiteSpace (rev s))"
    by (metis rev_append rev_rev_ident)
  moreover have "\<forall>c \<in> set (rev (takeWhile isWhiteSpace (rev s))). isWhiteSpace c"
    by (auto dest: set_takeWhileD)
  ultimately show ?thesis
    unfolding trimEnd_def by blast
qed

lemma trimEnd_head:
  assumes "t \<noteq> []" and "\<not> isWhiteSpace (hd t)"
  shows "trimEnd t \<noteq> [] \<and> hd (trimEnd t) = hd t"
proof -
  from assms(1) obtain h r where t: "t = h # r" by (cases t) auto
  with assms(2) have h: "\<not> isWhiteSpace h" by simp
  from h have ys: "dropWhile isWhiteSpace (rev r @ [h]) = dropWhile isWhiteSpace (rev r) @ [h]"
    by (rule dropWhile_append3)
  have "trimEnd t = rev (dropWhile isWhiteSpace (rev r @ [h]))"
    by (simp add: trimEnd_def t)
  also have "\<dots> = h # rev (dropWhile isWhiteSpace (rev r))"
    by (simp only: ys rev_append rev.simps append_Nil append_Cons)
  finally have "trimEnd t = h # rev (dropWhile isWhiteSpace (rev r))" .
  with t show ?thesis by simp
qed

lemma parseInt_trimEnd:
  assumes "t \<noteq> []" and "\<not> isWhiteSpace (hd t)"
  shows "parseInt (trimEnd t) = parseInt t"
proof -
  obtain ws where ws: "t = trimEnd t @ ws" "\<forall>c \<in> set ws. isWhiteSpace c"
    using trimEnd_decompose by blast
  show ?thesis
  proof (cases ws)
    case Nil
    with ws(1) show ?thesis by simp
  next
    case (Cons c w)
    with ws(2) have "digitValue c = None"
      by (simp add: whiteSpace_not_digit)
    moreover from trimEnd_head [OF assms] assms(2)
    have "trimEnd t \<noteq> []" "\<not> isWhiteSpace (hd (trimEnd t))" by simp_all
    ultimately have "parseInt (trimEnd t @ c # w) = parseInt (trimEnd t)"
      by (rule parseInt_extend [rotated 2])
    with ws(1) Cons show ?thesis by simp
  qed
qed

lemma trimStart_cases: "trimStart s = [] \<or> (trimStart s \<noteq> [] \<and> \<not> isWhiteSpace (hd (trimStart s)))"
  unfolding trimStart_def by (metis hd_dropWhile)

lemma parseInt_trim: "parseInt (trim s) = parseInt s"
proof -
  from trimStart_cases [of s] show ?thesis
  proof
    assume e: "trimStart s = []"
    then have "trim s = []" by (simp add: trim_def trimEnd_def)
    moreover have "parseInt s = parseInt []"
      using parseInt_trimStart [of s] e by simp
    ultimately show ?thesis by simp
  next
    assume "trimStart s \<noteq> [] \<and> \<not> isWhiteSpace (hd (trimStart s))"
    then have "parseInt (trimEnd (trimStart s)) = parseInt (trimStart s)"
      using parseInt_trimEnd by blast
    then show ?thesis
      by (simp add: trim_def parseInt_trimStart)
  qed
qed

lemma minus_not_space: "\<not> isWhiteSpace CHR ''-''"
  by (simp add: isWhiteSpace_def)

lemma parseInt_blank: "\<forall>c \<in> set s. isWhiteSpace c \<Longrightarrow> parseInt s = NaN"
proof -
  assume "\<forall>c \<in> set s. isWhiteSpace c"
  then have "trimStart s = []"
    by (simp add: trimStart_def)
  then show ?thesis
    by (simp add: parseInt_alt signed_def digitRun_def startsWith_def)
qed

lemma parseInt_after_minus:
  assumes "startsWith (trimStart b) ''-''"
  shows "parseInt (takeWhile (\<lambda>c. c \<noteq> CHR ''-'') b) = NaN"
proof -
  from assms obtain w where w: "dropWhile isWhiteSpace b = CHR ''-'' # w"
    unfolding trimStart_def startsWith_def
    by (cases "dropWhile isWhiteSpace b") auto
  have b: "b = takeWhile isWhiteSpace b @ CHR ''-'' # w"
    using w takeWhile_dropWhile_id [of isWhiteSpace b] by simp
  have all: "\<forall>c \<in> set (takeWhile isWhiteSpace b). isWhiteSpace c"
    by (auto dest: set_takeWhileD)
  then have "\<forall>c \<in> set (takeWhile isWhiteSpace b). c \<noteq> CHR ''-''"
    using minus_not_space by auto
  then have "takeWhile (\<lambda>c. c \<noteq> CHR ''-'') (takeWhile isWhiteSpace b @ CHR ''-'' # w)
             = takeWhile isWhiteSpace b"
    by (simp add: takeWhile_tail takeWhile_eq_all_conv)
  with b have "takeWhile (\<lambda>c. c \<noteq> CHR ''-'') b = takeWhile isWhiteSpace b"
    by simp
  with all show ?thesis
    by (simp add: parseInt_blank)
qed

lemma takeWhile_no_sep: "sep \<notin> set b \<Longrightarrow> takeWhile (\<lambda>c. c \<noteq> sep) b = b"
  by (induction b) auto

lemma split_at_sep:
  "sep \<in> set b \<Longrightarrow> \<exists>w. b = takeWhile (\<lambda>c. c \<noteq> sep) b @ sep # w"
proof (induction b)
  case Nil
  then show ?case by simp
next
  case (Cons a b)
  show ?case
  proof (cases "a = sep")
    case True
    then show ?thesis by simp
  next
    case False
    with Cons.prems have "sep \<in> set b" by simp
    from Cons.IH [OF this] obtain w where "b = takeWhile (\<lambda>c. c \<noteq> sep) b @ sep # w" by blast
    then have "a # b = (a # takeWhile (\<lambda>c. c \<noteq> sep) b) @ sep # w" by simp
    with False show ?thesis by auto
  qed
qed

lemma parseInt_first_piece:
  assumes "\<not> startsWith (trimStart b) ''-''"
  shows "parseInt (takeWhile (\<lambda>c. c \<noteq> CHR ''-'') b) = parseInt b"
proof (cases "CHR ''-'' \<in> set b")
  case False
  show ?thesis
    by (simp only: takeWhile_no_sep [OF False])
next
  case True
  define p where "p = takeWhile (\<lambda>c. c \<noteq> CHR ''-'') b"
  from split_at_sep [OF True] obtain w where b: "b = p @ CHR ''-'' # w"
    unfolding p_def by blast
  show ?thesis
  proof (cases "\<forall>c \<in> set p. isWhiteSpace c")
    case True
    then have "dropWhile isWhiteSpace (p @ CHR ''-'' # w) = dropWhile isWhiteSpace (CHR ''-'' # w)"
      by (intro dropWhile_append2) blast
    also have "\<dots> = CHR ''-'' # w"
      using minus_not_space by simp
    finally have "trimStart (p @ CHR ''-'' # w) = CHR ''-'' # w"
      by (simp only: trimStart_def)
    then have "startsWith (trimStart (p @ CHR ''-'' # w)) ''-''"
      by (simp add: startsWith_def)
    with assms b show ?thesis by metis
  next
    case False
    then obtain x where x: "x \<in> set p" "\<not> isWhiteSpace x" by blast
    from x have "dropWhile isWhiteSpace (p @ CHR ''-'' # w) = dropWhile isWhiteSpace p @ CHR ''-'' # w"
      by (rule dropWhile_append1)
    then have ts: "trimStart (p @ CHR ''-'' # w) = trimStart p @ CHR ''-'' # w"
      by (simp only: trimStart_def)
    from x have ne: "trimStart p \<noteq> []"
      unfolding trimStart_def by (auto simp: dropWhile_eq_Nil_conv)
    with trimStart_cases [of p] have hd: "\<not> isWhiteSpace (hd (trimStart p))" by blast
    have "parseInt (p @ CHR ''-'' # w) = parseInt (trimStart p @ CHR ''-'' # w)"
      using parseInt_trimStart [of "p @ CHR ''-'' # w"] by (simp only: ts)
    also have "\<dots> = parseInt (trimStart p)"
      using ne hd not_digit_chars(4) by (rule parseInt_extend)
    also have "\<dots> = parseInt p"
      by (rule parseInt_trimStart)
    finally have "parseInt p = parseInt (p @ CHR ''-'' # w)" by (rule sym)
    with b show ?thesis
      unfolding p_def by metis
  qed
qed

lemma split_no_sep: "sep \<notin> set s \<Longrightarrow> split sep s = [s]"
  by (induction s) auto

lemma split_at_first:
  "sep \<notin> set a \<Longrightarrow> split sep (a @ sep # b) = a # split sep b"
  by (induction a) auto

lemma split_head: "\<exists>ps. split sep b = takeWhile (\<lambda>c. c \<noteq> sep) b # ps"
  by (induction b) (auto split: list.splits)

lemma includes_str_single: "includes_str s [c] \<longleftrightarrow> c \<in> set s"
  by (induction s) (auto simp: startsWith_def)

lemma foldl_nonneg:
  "(0::int) \<le> acc \<Longrightarrow> 0 \<le> foldl (\<lambda>acc c. acc * int radix + int (the (digitValue c))) acc ds"
  by (induction ds arbitrary: acc) simp_all

lemma digitsValue_nonneg: "0 \<le> digitsValue radix ds"
  unfolding digitsValue_def by (rule foldl_nonneg) simp

lemma roundToDouble_nonneg: "0 \<le> n \<Longrightarrow> 0 \<le> roundToDouble n"
  by (auto simp: roundToDouble_def Let_def pos_imp_zdiv_nonneg_iff)

lemma toNumber_nonneg: "0 \<le> v \<Longrightarrow> toNumber v = Num x \<Longrightarrow> 0 \<le> x"
  using roundToDouble_nonneg [of v]
  by (auto simp: toNumber_def Let_def split: if_splits)

lemma signed_no_minus: "CHR ''-'' \<notin> set s \<Longrightarrow> fst (signed s) = False"
  by (cases s) (auto simp: signed_def)

lemma parseInt_nonneg:
  assumes "CHR ''-'' \<notin> set a" and "parseInt a = Num x"
  shows "0 \<le> x"
proof -
  from assms(1) have "CHR ''-'' \<notin> set (trimStart a)"
    unfolding trimStart_def by (auto dest: set_dropWhileD)
  then have f: "fst (signed (trimStart a)) = False"
    by (rule signed_no_minus)
  obtain radix ds where rd: "digitRun (snd (signed (trimStart a))) = (radix, ds)"
    by (cases "digitRun (snd (signed (trimStart a)))") auto
  from assms(2) f rd have "toNumber (digitsValue radix ds) = Num x"
    by (auto simp: parseInt_alt split: prod.splits if_splits)
  with digitsValue_nonneg [of radix ds] show ?thesis
    by (rule toNumber_nonneg)
qed

lemma parsePhases_range_gen:
  assumes a: "CHR ''-'' \<notin> set a"
    and x: "parseInt a = Num x"
    and y: "parseInt b = Num y"
    and h: "x \<le> y \<longrightarrow> y < 2 ^ 53 \<and> y - x < 4294967295 \<and> \<not> startsWith (trimStart b) ''-''"
  shows "parsePhases JSON_parse (a @ ''-'' @ b) = Inr (JArr (map (\<lambda>i. JNum (Num i)) [x..y]))"
proof -
  define piece where "piece = takeWhile (\<lambda>c. c \<noteq> CHR ''-'') b"
  obtain ps where ps: "split CHR ''-'' b = piece # ps"
    unfolding piece_def using split_head by blast
  have inc: "includes_str (a @ ''-'' @ b) ''-''"
    by (simp add: includes_str_single)
  have sp: "split CHR ''-'' (a @ ''-'' @ b) = a # piece # ps"
    using split_at_first [OF a, of b] ps by simp
  have pieces: "map (\<lambda>s. parseInt (trim s)) (split CHR ''-'' (a @ ''-'' @ b)) =
      Num x # parseInt piece # map (\<lambda>s. parseInt (trim s)) ps"
    by (simp only: sp list.map parseInt_trim x)
  have loop: "phaseLoop (Num x) (parseInt piece) [] = Inr (map Num [x..y])"
  proof (cases "x \<le> y")
    case True
    with h have b: "y < 2 ^ 53" "y - x < 4294967295" "\<not> startsWith (trimStart b) ''-''"
      by simp_all
    from b(3) have "parseInt piece = Num y"
      unfolding piece_def using parseInt_first_piece y by simp
    moreover from parseInt_nonneg [OF a x] have "- (2 ^ 53) \<le> x"
      by simp
    then have "phaseLoop (Num x) (Num y) [] = Inr ([] @ map Num [x..y])"
      using b(1) by (rule phaseLoop_range) (use b(2) in simp)
    ultimately show ?thesis by simp
  next
    case False
    have "parseInt piece = NaN \<or> parseInt piece = Num y"
      unfolding piece_def
      using parseInt_first_piece [of b] parseInt_after_minus [of b] y by metis
    with False have "\<not> le (Num x) (parseInt piece)"
      by auto
    then have "phaseLoop (Num x) (parseInt piece) [] = Inr []"
      by (rule phaseLoop_empty)
    with False show ?thesis by simp
  qed
  show ?thesis
    unfolding parsePhases_def
    by (simp only: inc if_True pieces list.case loop sum.case map_map comp_def)
qed

text \<open>
  Above \<open>2^53\<close> \<open>parseInt\<close> rounds to the nearest double, a tie to the even one. At \<open>2^53\<close> the
  counter no longer moves: \<open>2^53 + 1\<close> rounds back to \<open>2^53\<close>, the condition of
  the loop stays true and the loop goes on adding to the array until the array is full.
\<close>

lemma parseInt_rounds:
  "parseInt ''9007199254740993'' = Num 9007199254740992"
  "parseInt ''9007199254740995'' = Num 9007199254740996"
  "parseInt ''0x20000000000001'' = Num 9007199254740992"
  by code_simp+

lemma toNumber_top: "toNumber 9007199254740993 = Num 9007199254740992"
  by code_simp

lemma phaseLoop_stuck:
  "phaseLoop (Num 9007199254740992) (Num 9007199254740992) acc = Inl RangeError"
proof (induction "nat (4294967295 - int (length acc))" arbitrary: acc)
  case 0
  then have "\<not> int (length acc) < 4294967295" by simp
  then show ?case
    by (subst phaseLoop.simps) simp
next
  case (Suc n)
  then have len: "int (length acc) < 4294967295" by simp
  have "phaseLoop (Num 9007199254740992) (Num 9007199254740992)
          (acc @ [Num 9007199254740992]) = Inl RangeError"
    by (rule Suc.hyps(1)) (use Suc.hyps(2) in simp)
  with len show ?case
    by (subst phaseLoop.simps) (simp add: toNumber_top)
qed

lemma parsePhases_beyond_safe:
  "parsePhases JSON_parse ''9007199254740992-9007199254740992'' = Inl RangeError"
proof -
  have i: "includes_str ''9007199254740992-9007199254740992'' ''-''"
    by code_simp
  have p: "map (\<lambda>s. parseInt (trim s)) (split CHR ''-'' ''9007199254740992-9007199254740992'') =
           [Num 9007199254740992, Num 9007199254740992]"
    by code_simp
  show ?thesis
    unfolding parsePhases_def
    by (simp only: i if_True p list.case phaseLoop_stuck sum.case)
qed

text \<open>
  Claim C9 (expansion of a phase range), as the code has it. Write the input as \<open>a-b\<close> with
  no \<open>-\<close> in \<open>a\<close>, and let \<open>parseInt\<close> read the integer \<open>x\<close> from \<open>a\<close> and the integer \<open>y\<close> from
  \<open>b\<close>. When \<open>x > y\<close> the result is the empty list. When \<open>x \<le> y\<close>, \<open>y\<close> is below \<open>2^53\<close>, the
  range has at most \<open>2^32 - 1\<close> entries and \<open>b\<close> does not begin with \<open>-\<close> after its leading
  white space (with \<open>x \<le> y\<close> this leaves out only a negative zero, as in \<open>0--0\<close>), the
  result is the list \<open>x, x + 1, ..., y\<close>. An input without \<open>-\<close> goes to \<open>parseSlots\<close>, which
  returns what \<open>JSON.parse\<close> gives for a bracketed input (the empty array when it throws)
  and otherwise the comma-separated numbers, the entries that are \<open>NaN\<close> removed.
\<close>

theorem parsePhases_spec:
  "(CHR ''-'' \<notin> set a \<and> parseInt a = Num x \<and> parseInt b = Num y
      \<and> (x \<le> y \<longrightarrow> y < 2 ^ 53 \<and> y - x < 4294967295 \<and> \<not> startsWith (trimStart b) ''-'')
      \<longrightarrow> parsePhases JSON_parse (a @ ''-'' @ b) = Inr (JArr (map (\<lambda>i. JNum (Num i)) [x..y]))
          \<and> (x > y \<longrightarrow> parsePhases JSON_parse (a @ ''-'' @ b) = Inr (JArr [])))
   \<and> (CHR ''-'' \<notin> set s \<longrightarrow> parsePhases JSON_parse s = Inr (parseSlots JSON_parse s))
   \<and> (startsWith s ''['' \<and> endsWith s '']'' \<longrightarrow>
        parseSlots JSON_parse s = (case JSON_parse s of Some v \<Rightarrow> v | None \<Rightarrow> JArr []))
   \<and> (\<not> (startsWith s ''['' \<and> endsWith s '']'') \<longrightarrow>
        parseSlots JSON_parse s =
          JArr (map JNum (filter (\<lambda>n. \<not> isNaN n)
                  (map (\<lambda>p. parseInt (trim p)) (split CHR '','' s)))))"
proof (intro conjI impI)
  assume h: "CHR ''-'' \<notin> set a \<and> parseInt a = Num x \<and> parseInt b = Num y
      \<and> (x \<le> y \<longrightarrow> y < 2 ^ 53 \<and> y - x < 4294967295 \<and> \<not> startsWith (trimStart b) ''-'')"
  then show r: "parsePhases JSON_parse (a @ ''-'' @ b) = Inr (JArr (map (\<lambda>i. JNum (Num i)) [x..y]))"
    using parsePhases_range_gen [of a x b y JSON_parse] by blast
  assume "x > y"
  with r show "parsePhases JSON_parse (a @ ''-'' @ b) = Inr (JArr [])"
    by simp
next
  assume "CHR ''-'' \<notin> set s"
  then show "parsePhases JSON_parse s = Inr (parseSlots JSON_parse s)"
    by (simp add: parsePhases_def includes_str_single)
next
  assume "startsWith s ''['' \<and> endsWith s '']''"
  then show "parseSlots JSON_parse s = (case JSON_parse s of Some v \<Rightarrow> v | None \<Rightarrow> JArr [])"
    by (simp add: parseSlots_def)
next
  assume "\<not> (startsWith s ''['' \<and> endsWith s '']'')"
  then show "parseSlots JSON_parse s =
          JArr (map JNum (filter (\<lambda>n. \<not> isNaN n)
                  (map (\<lambda>p. parseInt (trim p)) (split CHR '','' s))))"
    by (auto simp: parseSlots_def)
qed

text \<open>
  Instances of C9: the range \<open>1-3\<close>, the empty ranges \<open>5-2\<close> and \<open>1--3\<close>, a comma-separated
  list with a non-numeric entry, and a bracketed input.
\<close>

theorem parsePhases_spec_witness:
  "CHR ''-'' \<notin> set ''1'' \<and> parseInt ''1'' = Num 1 \<and> parseInt ''3'' = Num 3
   \<and> (3::int) < 2 ^ 53 \<and> (3::int) - 1 < 4294967295 \<and> \<not> startsWith (trimStart ''3'') ''-''
   \<and> parsePhases (parseTable []) ''1-3'' = Inr (JArr [JNum (Num 1), JNum (Num 2), JNum (Num 3)])
   \<and> CHR ''-'' \<notin> set ''5'' \<and> parseInt ''5'' = Num 5 \<and> parseInt ''2'' = Num 2
   \<and> (5::int) > 2
   \<and> parsePhases (parseTable []) ''5-2'' = Inr (JArr [])
   \<and> parseInt ''-3'' = Num (- 3) \<and> (1::int) > - 3
   \<and> parsePhases (parseTable []) ''1--3'' = Inr (JArr [])
   \<and> CHR ''-'' \<notin> set ''2,x, 4''
   \<and> \<not> (startsWith ''2,x, 4'' ''['' \<and> endsWith ''2,x, 4'' '']'')
   \<and> parsePhases (parseTable []) ''2,x, 4'' = Inr (JArr [JNum (Num 2), JNum (Num 4)])
   \<and> startsWith ''[5]'' ''['' \<and> endsWith ''[5]'' '']''
   \<and> parseSlots (parseTable [(''[5]'', JArr [JNum (Num 5)])]) ''[5]'' = JArr [JNum (Num 5)]"
proof -
  have a1: "CHR ''-'' \<notin> set ''1'' \<and> parseInt ''1'' = Num 1 \<and> parseInt ''3'' = Num 3"
    by code_simp
  have a2: "(3::int) < 2 ^ 53 \<and> (3::int) - 1 < 4294967295 \<and> \<not> startsWith (trimStart ''3'') ''-''"
    by code_simp
  have a3: "JArr (map (\<lambda>i. JNum (Num i)) [1..3]) = JArr [JNum (Num 1), JNum (Num 2), JNum (Num 3)]"
    by code_simp
  from a1 a2 parsePhases_spec [of "''1''" 1 "''3''" 3 "parseTable []"]
  have "parsePhases (parseTable []) (''1'' @ ''-'' @ ''3'') = Inr (JArr (map (\<lambda>i. JNum (Num i)) [1..3]))"
    by blast
  with a3 have c1: "parsePhases (parseTable []) ''1-3'' = Inr (JArr [JNum (Num 1), JNum (Num 2), JNum (Num 3)])"
    by simp
  have b1: "CHR ''-'' \<notin> set ''5'' \<and> parseInt ''5'' = Num 5 \<and> parseInt ''2'' = Num 2"
    by code_simp
  have b2: "(5::int) > 2"
    by simp
  from b1 b2 parsePhases_spec [of "''5''" 5 "''2''" 2 "parseTable []"]
  have "parsePhases (parseTable []) (''5'' @ ''-'' @ ''2'') = Inr (JArr [])"
    by auto
  then have c2: "parsePhases (parseTable []) ''5-2'' = Inr (JArr [])"
    by simp
  have n1: "parseInt ''-3'' = Num (- 3)"
    by code_simp
  have n2: "(1::int) > - 3"
    by simp
  from a1 n1 n2 parsePhases_spec [of "''1''" 1 "''-3''" "- 3" "parseTable []"]
  have "parsePhases (parseTable []) (''1'' @ ''-'' @ ''-3'') = Inr (JArr [])"
    by auto
  then have c5: "parsePhases (parseTable []) ''1--3'' = Inr (JArr [])"
    by simp
  have d1: "CHR ''-'' \<notin> set ''2,x, 4''"
    by code_simp
  have d2: "\<not> (startsWith ''2,x, 4'' ''['' \<and> endsWith ''2,x, 4'' '']'')"
    by code_simp
  have d3: "JArr (map JNum (filter (\<lambda>n. \<not> isNaN n)
                  (map (\<lambda>p. parseInt (trim p)) (split CHR '','' ''2,x, 4'')))) =
            JArr [JNum (Num 2), JNum (Num 4)]"
    by code_simp
  from d1 d2 parsePhases_spec [of _ _ _ _ "parseTable []" "''2,x, 4''"]
  have "parsePhases (parseTable []) ''2,x, 4'' =
          Inr (JArr (map JNum (filter (\<lambda>n. \<not> isNaN n)
                  (map (\<lambda>p. parseInt (trim p)) (split CHR '','' ''2,x, 4'')))))"
    by metis
  with d3 have c3: "parsePhases (parseTable []) ''2,x, 4'' = Inr (JArr [JNum (Num 2), JNum (Num 4)])"
    by simp
  have e1: "startsWith ''[5]'' ''['' \<and> endsWith ''[5]'' '']''"
    by code_simp
  have e2: "(case parseTable [(''[5]'', JArr [JNum (Num 5)])] ''[5]'' of Some v \<Rightarrow> v | None \<Rightarrow> JArr [])
            = JArr [JNum (Num 5)]"
    by code_simp
  from e1 parsePhases_spec [of _ _ _ _ "parseTable [(''[5]'', JArr [JNum (Num 5)])]" "''[5]''"]
  have "parseSlots (parseTable [(''[5]'', JArr [JNum (Num 5)])]) ''[5]'' =
          (case parseTable [(''[5]'', JArr [JNum (Num 5)])] ''[5]'' of Some v \<Rightarrow> v | None \<Rightarrow> JArr [])"
    by blast
  with e2 have c4: "parseSlots (parseTable [(''[5]'', JArr [JNum (Num 5)])]) ''[5]'' = JArr [JNum (Num 5)]"
    by simp
  from a1 a2 c1 b1 b2 c2 n1 n2 c5 d1 d2 c3 e1 c4 show ?thesis
    by blast
qed

text \<open>
  C9 as stated fails when \<open>a\<close> is a negative integer: in \<open>-2-3\<close> both \<open>-2\<close> and \<open>3\<close> parse as
  integers, but the split at \<open>-\<close> makes the first piece empty, so \<open>start\<close> is \<open>NaN\<close> and the
  result is empty instead of the six numbers from \<open>-2\<close> to \<open>3\<close>.
\<close>

theorem parsePhases_negative_start_counterexample:
  "parseInt ''-2'' = Num (- 2) \<and> parseInt ''3'' = Num 3
   \<and> parsePhases (parseTable []) (''-2'' @ ''-'' @ ''3'') = Inr (JArr [])
   \<and> parsePhases (parseTable []) (''-2'' @ ''-'' @ ''3'') \<noteq>
       Inr (JArr [JNum (Num (- 2)), JNum (Num (- 1)), JNum (Num 0), JNum (Num 1), JNum (Num 2), JNum (Num 3)])"
  by code_simp

section \<open>Properties of the search fallback\<close>

lemma startsWith_prefix: "startsWith s t \<longleftrightarrow> prefix t s"
proof
  assume "startsWith s t"
  then have "s = t @ drop (length t) s"
    by (metis append_take_drop_id startsWith_def)
  then show "prefix t s"
    by (metis prefixI)
next
  assume "prefix t s"
  then show "startsWith s t"
    by (auto simp: startsWith_def prefix_def)
qed

lemma includes_str_sublist: "includes_str s t \<longleftrightarrow> sublist t s"
  by (induction s) (simp_all add: sublist_Cons_right startsWith_prefix)

text \<open>\<open>toLowerCase\<close> on a capital of the Latin-1 range, on the multiplication sign and on a letter.\<close>

lemma toLowerCase_latin1: "toLowerCase [CHR 0xC9, CHR 0xD7, CHR ''Q''] = [CHR 0xE9, CHR 0xD7, CHR ''q'']"
  by code_simp

lemma aiSearch_no_key:
  "apiKey this = None \<or> apiKey this = Some [] \<Longrightarrow>
     aiSearch P this aiResponse = Inl (Error ''API key not configured'')"
  by (auto simp: aiSearch_def generateContent_def)

lemma aiSearch_no_answer:
  "aiResponse = None \<or> aiResponse = Some [] \<Longrightarrow> \<exists>e. aiSearch P this aiResponse = Inl e"
  by (auto simp: aiSearch_def generateContent_def Let_def)

lemma aiSearch_unparseable:
  assumes "P (trim (removeFences r)) = None"
    and "case matchBrackets (trim (removeFences r)) of None \<Rightarrow> True | Some m \<Rightarrow> P m = None"
  shows "\<exists>e. aiSearch P this (Some r) = Inl e"
  using assms
  by (auto simp: aiSearch_def generateContent_def Let_def split: option.splits)

lemma aiSearch_not_array:
  assumes "P (trim (removeFences r)) = Some v" and "\<forall>xs. v \<noteq> JArr xs"
  shows "\<exists>e. aiSearch P this (Some r) = Inl e"
  using assms
  by (cases v) (auto simp: aiSearch_def generateContent_def Let_def split: option.splits)

text \<open>
  Claim C4 (fallback of the AI search), as the code has it. For a query that is not blank,
  when the \<open>try\<close> block throws, the result is the list of the items whose lower-cased
  serialization contains the lower-cased query as a contiguous substring, cut to the first
  20, with source \<open>local\<close>. The block throws when the API key is missing, when the request
  fails or has no text, when neither the cleaned answer nor its bracketed part parses, and
  when the cleaned answer parses to a value that is not an array.
  For a blank query the function returns no result, with source \<open>local\<close>.
\<close>

theorem search_fallback:
  "(trim query \<noteq> [] \<and> aiSearch JSON_parse this aiResponse = Inl e \<longrightarrow>
      searchData JSON_parse JSON_stringify this aiResponse query data =
        \<lparr>results = take 20 (filter (\<lambda>item.
             sublist (toLowerCase query) (toLowerCase (JSON_stringify item))) data),
         source = local'\<rparr>)
   \<and> (apiKey this = None \<or> apiKey this = Some [] \<or> aiResponse = None \<or> aiResponse = Some []
        \<longrightarrow> (\<exists>e. aiSearch JSON_parse this aiResponse = Inl e))
   \<and> (JSON_parse (trim (removeFences r)) = None
        \<and> (case matchBrackets (trim (removeFences r)) of
              None \<Rightarrow> True | Some m \<Rightarrow> JSON_parse m = None)
        \<longrightarrow> (\<exists>e. aiSearch JSON_parse this (Some r) = Inl e))
   \<and> (JSON_parse (trim (removeFences r)) = Some v \<and> (\<forall>xs. v \<noteq> JArr xs)
        \<longrightarrow> (\<exists>e. aiSearch JSON_parse this (Some r) = Inl e))
   \<and> (trim query = [] \<longrightarrow>
        searchData JSON_parse JSON_stringify this aiResponse query data =
          \<lparr>results = [], source = local'\<rparr>)"
proof (intro conjI impI)
  assume h: "trim query \<noteq> [] \<and> aiSearch JSON_parse this aiResponse = Inl e"
  show "searchData JSON_parse JSON_stringify this aiResponse query data =
        \<lparr>results = take 20 (filter (\<lambda>item.
             sublist (toLowerCase query) (toLowerCase (JSON_stringify item))) data),
         source = local'\<rparr>"
  proof (cases "data = []")
    case True
    then show ?thesis by (simp add: searchData_def)
  next
    case False
    with h show ?thesis
      by (simp add: searchData_def Let_def includes_str_sublist)
  qed
next
  assume "apiKey this = None \<or> apiKey this = Some [] \<or> aiResponse = None \<or> aiResponse = Some []"
  then show "\<exists>e. aiSearch JSON_parse this aiResponse = Inl e"
    using aiSearch_no_key [of this JSON_parse aiResponse] aiSearch_no_answer [of aiResponse JSON_parse this]
    by blast
next
  assume "JSON_parse (trim (removeFences r)) = None
        \<and> (case matchBrackets (trim (removeFences r)) of
              None \<Rightarrow> True | Some m \<Rightarrow> JSON_parse m = None)"
  then show "\<exists>e. aiSearch JSON_parse this (Some r) = Inl e"
    using aiSearch_unparseable by blast
next
  assume "JSON_parse (trim (removeFences r)) = Some v \<and> (\<forall>xs. v \<noteq> JArr xs)"
  then show "\<exists>e. aiSearch JSON_parse this (Some r) = Inl e"
    using aiSearch_not_array by blast
next
  assume "trim query = []"
  then show "searchData JSON_parse JSON_stringify this aiResponse query data =
          \<lparr>results = [], source = local'\<rparr>"
    by (simp add: searchData_def)
qed


text \<open>
  Instances of C4: a missing key and an answer without JSON both fall back to the local
  search; a blank query gives no result.
\<close>

theorem search_fallback_witness:
  "trim ''ACME'' \<noteq> []
   \<and> aiSearch (parseTable []) \<lparr>apiKey = None\<rparr> None = Inl (Error ''API key not configured'')
   \<and> searchData (parseTable []) sampleStringify \<lparr>apiKey = None\<rparr> None ''ACME'' [zenith, acme] =
        \<lparr>results = [acme], source = local'\<rparr>
   \<and> aiSearch (parseTable []) \<lparr>apiKey = Some ''key''\<rparr> (Some ''no match, sorry'') =
        Inl (Error ''No valid JSON found in response'')
   \<and> searchData (parseTable []) sampleStringify \<lparr>apiKey = Some ''key''\<rparr> (Some ''no match, sorry'')
          ''zen'' [zenith, acme] =
        \<lparr>results = [zenith], source = local'\<rparr>
   \<and> trim ''  '' = []
   \<and> searchData (parseTable []) sampleStringify \<lparr>apiKey = None\<rparr> None ''  '' [zenith, acme] =
        \<lparr>results = [], source = local'\<rparr>"
proof -
  have q: "trim ''ACME'' \<noteq> []" "trim ''zen'' \<noteq> []" "trim ''  '' = []"
    by code_simp+
  have f1: "aiSearch (parseTable []) \<lparr>apiKey = None\<rparr> None = Inl (Error ''API key not configured'')"
    by code_simp
  have f2: "aiSearch (parseTable []) \<lparr>apiKey = Some ''key''\<rparr> (Some ''no match, sorry'') =
        Inl (Error ''No valid JSON found in response'')"
    by code_simp
  have r1: "take 20 (filter (\<lambda>item.
             sublist (toLowerCase ''ACME'') (toLowerCase (sampleStringify item))) [zenith, acme]) = [acme]"
    by code_simp
  have r2: "take 20 (filter (\<lambda>item.
             sublist (toLowerCase ''zen'') (toLowerCase (sampleStringify item))) [zenith, acme]) = [zenith]"
    by code_simp
  from q(1) f1 search_fallback [of "''ACME''" "parseTable []" "\<lparr>apiKey = None\<rparr>" None
      "Error ''API key not configured''" sampleStringify "[zenith, acme]"]
  have "searchData (parseTable []) sampleStringify \<lparr>apiKey = None\<rparr> None ''ACME'' [zenith, acme] =
        \<lparr>results = take 20 (filter (\<lambda>item.
             sublist (toLowerCase ''ACME'') (toLowerCase (sampleStringify item))) [zenith, acme]),
         source = local'\<rparr>"
    by blast
  with r1 have c1: "searchData (parseTable []) sampleStringify \<lparr>apiKey = None\<rparr> None ''ACME'' [zenith, acme] =
        \<lparr>results = [acme], source = local'\<rparr>"
    by simp
  from q(2) f2 search_fallback [of "''zen''" "parseTable []" "\<lparr>apiKey = Some ''key''\<rparr>"
      "Some ''no match, sorry''" "Error ''No valid JSON found in response''" sampleStringify "[zenith, acme]"]
  have "searchData (parseTable []) sampleStringify \<lparr>apiKey = Some ''key''\<rparr> (Some ''no match, sorry'')
          ''zen'' [zenith, acme] =
        \<lparr>results = take 20 (filter (\<lambda>item.
             sublist (toLowerCase ''zen'') (toLowerCase (sampleStringify item))) [zenith, acme]),
         source = local'\<rparr>"
    by blast
  with r2 have c2: "searchData (parseTable []) sampleStringify \<lparr>apiKey = Some ''key''\<rparr> (Some ''no match, sorry'')
          ''zen'' [zenith, acme] = \<lparr>results = [zenith], source = local'\<rparr>"
    by simp
  from q(3) search_fallback [of "''  ''" "parseTable []" "\<lparr>apiKey = None\<rparr>" None _ sampleStringify
      "[zenith, acme]"]
  have c3: "searchData (parseTable []) sampleStringify \<lparr>apiKey = None\<rparr> None ''  '' [zenith, acme] =
        \<lparr>results = [], source = local'\<rparr>"
    by blast
  from q f1 f2 c1 c2 c3 show ?thesis
    by blast
qed

text \<open>
  C4 as stated fails for a blank query: with no API key and the query of one space, the
  serialization of the item contains the query, yet the function returns no result.
\<close>

theorem search_blank_query_counterexample:
  "apiKey \<lparr>apiKey = None\<rparr> = None
   \<and> includes_str (toLowerCase (sampleStringify acme)) (toLowerCase '' '')
   \<and> searchData (parseTable []) sampleStringify \<lparr>apiKey = None\<rparr> None '' '' [acme] =
        \<lparr>results = [], source = local'\<rparr>
   \<and> acme \<notin> set (results (searchData (parseTable []) sampleStringify \<lparr>apiKey = None\<rparr> None '' '' [acme]))"
  by code_simp

section \<open>Properties of normalization\<close>

text \<open>
  On rows whose list columns hold text (every row of a CSV file does) and whose phase
  ranges the loop of \<open>parsePhases\<close> completes, \<open>normalizeData\<close> returns one record per row,
  the record \<open>normalizeRow\<close> builds for the row and its index. A row without any cell gets
  the defaults: the generated identifier, the name \<open>Unknown\<close>, 1 for the numeric fields and
  empty lists.
\<close>

lemma splitList_text: "textOrFalsy v \<Longrightarrow> \<exists>xs. splitList v = Inr xs"
  by (cases v) (auto simp: textOrFalsy_def splitList_def orElse_def)

lemma callWithString_text:
  "textOrFalsy v \<Longrightarrow> \<exists>s. orElse v d = CStr s \<and> callWithString f (orElse v d) = f s"
  by (cases v) (auto simp: textOrFalsy_def callWithString_def orElse_def)

lemma normalizeRow_text:
  assumes "\<forall>column \<in> set (listColumns type). textOrFalsy (row column)"
    and "\<forall>s. type = TTasks \<and> orElse (row ''PreferredPhases'') ''[]'' = CStr s
           \<longrightarrow> (\<exists>v. parsePhases JSON_parse s = Inr v)"
  shows "\<exists>x. normalizeRow JSON_parse type index row = Inr x"
proof (cases type)
  case TClients
  with assms have "textOrFalsy (row ''RequestedTaskIDs'')"
    by (simp add: listColumns_def)
  then obtain xs where "splitList (row ''RequestedTaskIDs'') = Inr xs"
    using splitList_text by blast
  with TClients show ?thesis
    by (simp add: normalizeRow_def)
next
  case TWorkers
  with assms have t: "textOrFalsy (row ''Skills'')" "textOrFalsy (row ''AvailableSlots'')"
    by (simp_all add: listColumns_def)
  from t(1) obtain xs where xs: "splitList (row ''Skills'') = Inr xs"
    using splitList_text by blast
  from t(2) obtain y where
    y: "callWithString (\<lambda>s. Inr (parseSlots JSON_parse s)) (orElse (row ''AvailableSlots'') ''[]'') = Inr y"
    using callWithString_text [where f = "\<lambda>s. Inr (parseSlots JSON_parse s)"] by metis
  from TWorkers xs y show ?thesis
    by (simp add: normalizeRow_def)
next
  case TTasks
  with assms have t: "textOrFalsy (row ''RequiredSkills'')" "textOrFalsy (row ''PreferredPhases'')"
    by (simp_all add: listColumns_def)
  from t(1) obtain xs where xs: "splitList (row ''RequiredSkills'') = Inr xs"
    using splitList_text by blast
  from t(2) obtain s where
    s: "orElse (row ''PreferredPhases'') ''[]'' = CStr s"
      "callWithString (parsePhases JSON_parse) (orElse (row ''PreferredPhases'') ''[]'') =
         parsePhases JSON_parse s"
    using callWithString_text [where f = "parsePhases JSON_parse"] by metis
  from assms(2) TTasks s(1) obtain y where "parsePhases JSON_parse s = Inr y"
    by blast
  with s(2) have
    y: "callWithString (parsePhases JSON_parse) (orElse (row ''PreferredPhases'') ''[]'') = Inr y"
    by simp
  from TTasks xs y show ?thesis
    by (simp add: normalizeRow_def)
qed

lemma mapRows_total:
  assumes "\<forall>row \<in> set rows. \<forall>i. \<exists>x. f i row = Inr x"
  shows "\<exists>xs. mapRows f n rows = Inr xs \<and> length xs = length rows
           \<and> (\<forall>j < length rows. f (n + j) (rows ! j) = Inr (xs ! j))"
  using assms
proof (induction rows arbitrary: n)
  case Nil
  show ?case by simp
next
  case (Cons row rows)
  from Cons.prems obtain x where x: "f n row = Inr x"
    by (meson list.set_intros(1))
  from Cons.prems have "\<forall>row \<in> set rows. \<forall>i. \<exists>x. f i row = Inr x"
    by simp
  from Cons.IH [OF this, of "Suc n"] obtain xs where
    xs: "mapRows f (Suc n) rows = Inr xs" "length xs = length rows"
      "\<forall>j < length rows. f (Suc n + j) (rows ! j) = Inr (xs ! j)"
    by blast
  have "\<forall>j < length (row # rows). f (n + j) ((row # rows) ! j) = Inr ((x # xs) ! j)"
  proof (intro allI impI)
    fix j assume "j < length (row # rows)"
    then show "f (n + j) ((row # rows) ! j) = Inr ((x # xs) ! j)"
      using x xs(3) by (cases j) simp_all
  qed
  with x xs show ?case
    by simp
qed

lemma normalizeData_text_rows:
  assumes "\<forall>row \<in> set rawData. \<forall>column \<in> set (listColumns type). textOrFalsy (row column)"
    and "\<forall>row \<in> set rawData. \<forall>s.
           type = TTasks \<and> orElse (row ''PreferredPhases'') ''[]'' = CStr s
           \<longrightarrow> (\<exists>v. parsePhases JSON_parse s = Inr v)"
  shows "\<exists>records. normalizeData JSON_parse rawData type = Inr records
           \<and> length records = length rawData
           \<and> (\<forall>j < length rawData.
                 normalizeRow JSON_parse type j (rawData ! j) = Inr (records ! j))"
proof -
  from assms have "\<forall>row \<in> set rawData. \<forall>i. \<exists>x. normalizeRow JSON_parse type i row = Inr x"
    using normalizeRow_text by blast
  from mapRows_total [OF this, of 0] show ?thesis
    by (simp add: normalizeData_def)
qed

lemma parseInt_one: "parseInt ''1'' = Num 1"
  by code_simp

lemma splitList_empty: "splitList Undefined = Inr []"
  by code_simp

lemma normalizeRow_defaults:
  "normalizeRow JSON_parse TClients index (\<lambda>column. Undefined) =
     Inr (ClientRecord \<lparr>ClientID = ''C'' @ showNat (index + 1), ClientName = ''Unknown'',
            PriorityLevel = Num 1, RequestedTaskIDs = [], GroupTag = ''Default'',
            AttributesJSON = JObj []\<rparr>)"
  "normalizeRow JSON_parse TWorkers index (\<lambda>column. Undefined) =
     Inr (WorkerRecord \<lparr>WorkerID = ''W'' @ showNat (index + 1), WorkerName = ''Unknown'',
            Skills = [],
            AvailableSlots = (case JSON_parse ''[]'' of Some v \<Rightarrow> v | None \<Rightarrow> JArr []),
            MaxLoadPerPhase = Num 1, WorkerGroup = ''Default'', QualificationLevel = Num 1\<rparr>)"
  "normalizeRow JSON_parse TTasks index (\<lambda>column. Undefined) =
     Inr (TaskRecord \<lparr>TaskID = ''T'' @ showNat (index + 1), TaskName = ''Unknown'',
            Category = ''General'', Duration = Num 1, RequiredSkills = [],
            PreferredPhases = (case JSON_parse ''[]'' of Some v \<Rightarrow> v | None \<Rightarrow> JArr []),
            MaxConcurrent = Num 1\<rparr>)"
  by (simp_all add: normalizeRow_def splitList_empty orElse_def parseInt_one callWithString_def
      parseSlots_def parsePhases_def includes_str_single startsWith_def endsWith_def)

lemma normalizeRow_fields:
  assumes "row ''RequestedTaskIDs'' = CStr s" and "row ''AttributesJSON'' = CStr a"
    and "JSON_parse a = None"
    and "normalizeRow JSON_parse TClients index row = Inr (ClientRecord c)"
  shows "RequestedTaskIDs c = filter (\<lambda>p. p \<noteq> []) (map trim (split CHR '','' s))"
    and "AttributesJSON c = JObj []"
  using assms
  by (auto simp: normalizeRow_def splitList_def orElse_def split: if_splits)

text \<open>
  Claim C7 (normalization is total) fails on a spreadsheet row: a numeric cell in the
  column \<open>PreferredPhases\<close> reaches \<open>parsePhases\<close> as a number, whose first step is the
  string method \<open>includes\<close>, and the call of \<open>normalizeData\<close> ends with a \<open>TypeError\<close>
  instead of returning a record for the row.
\<close>

theorem normalizeData_numeric_phase_cell:
  "normalizeData (parseTable []) [sheetTaskRow] TTasks = Inl TypeError"
  by code_simp

end
